theory Spec2Isabelle
  imports Main "HOL-Library.Word"
begin

section \<open>The relay server of \<^verbatim>\<open>client_server/server.js\<close>\<close>

text \<open>
  The server relays lines between one serial port and a set of WebSocket clients. It is
  single-threaded and event-driven: every function of the source runs to completion inside
  one event. Each function of the source is a function from the state to the state here,
  with the source's name; the state holds the five global variables of the source and what
  the runtime keeps for it (timers, port objects, client sockets, the console, the data
  passed to \<^verbatim>\<open>serial.write\<close> and \<^verbatim>\<open>client.send\<close>).
\<close>

subsection \<open>JavaScript strings\<close>

text \<open>
  A JavaScript string is a sequence of 16-bit code units, and \<^verbatim>\<open>length\<close> counts them.
  \<open>lit\<close> turns an ASCII literal into code units.
\<close>

type_synonym jsstring = "16 word list"

definition lit :: "string \<Rightarrow> jsstring" where
  "lit s = map (\<lambda>c. of_nat (of_char c)) s"

abbreviation CR :: "16 word" where "CR \<equiv> 13"
abbreviation LF :: "16 word" where "LF \<equiv> 10"

text \<open>
  \<^verbatim>\<open>String.prototype.trim\<close> removes leading and trailing white space and line
  terminators, as ECMAScript lists them.
\<close>

definition isWhiteSpace :: "16 word \<Rightarrow> bool" where
  "isWhiteSpace c \<longleftrightarrow>
     c = 0x09 \<or> c = 0x0A \<or> c = 0x0B \<or> c = 0x0C \<or> c = 0x0D \<or> c = 0x20 \<or> c = 0xA0 \<or>
     c = 0x1680 \<or> (0x2000 \<le> c \<and> c \<le> 0x200A) \<or> c = 0x2028 \<or> c = 0x2029 \<or>
     c = 0x202F \<or> c = 0x205F \<or> c = 0x3000 \<or> c = 0xFEFF"

definition trim :: "jsstring \<Rightarrow> jsstring" where
  "trim s = rev (dropWhile isWhiteSpace (rev (dropWhile isWhiteSpace s)))"

text \<open>
  \<^verbatim>\<open>s.split(sep)\<close> for a one-character separator: the segments between the
  separators, one more than there are separators (so never an empty array).
\<close>

fun split :: "'a \<Rightarrow> 'a list \<Rightarrow> 'a list list" where
  "split sep [] = [[]]"
| "split sep (c # cs) =
     (if c = sep then [] # split sep cs
      else (let r = split sep cs in (c # hd r) # tl r))"

text \<open>
  The port delivers a \<^verbatim>\<open>Buffer\<close> of bytes, and \<^verbatim>\<open>data.toString()\<close> decodes it as
  UTF-8, each buffer by itself. \<open>utf8\<close> gives the code points: a well-formed sequence of
  one to four bytes is one code point, and every maximal ill-formed prefix (a byte that
  can begin no sequence, or a sequence cut short by the next byte or by the end of the
  buffer) is U+FFFD. \<open>codeUnits\<close> writes a code point above U+FFFF as a surrogate pair.
\<close>

fun utf8 :: "nat list \<Rightarrow> nat list" where
  "utf8 [] = []"
| "utf8 (b # bs) =
     (if b < 0x80 then b # utf8 bs
      else if 0xC2 \<le> b \<and> b \<le> 0xDF then
        (case bs of
           [] \<Rightarrow> [0xFFFD]
         | c # cs \<Rightarrow>
             if 0x80 \<le> c \<and> c \<le> 0xBF then ((b - 0xC0) * 0x40 + (c - 0x80)) # utf8 cs
             else 0xFFFD # utf8 bs)
      else if 0xE0 \<le> b \<and> b \<le> 0xEF then
        (case bs of
           [] \<Rightarrow> [0xFFFD]
         | c # cs \<Rightarrow>
             if (if b = 0xE0 then 0xA0 else 0x80) \<le> c \<and> c \<le> (if b = 0xED then 0x9F else 0xBF)
             then (case cs of
                     [] \<Rightarrow> [0xFFFD]
                   | d # ds \<Rightarrow>
                       if 0x80 \<le> d \<and> d \<le> 0xBF
                       then ((b - 0xE0) * 0x1000 + (c - 0x80) * 0x40 + (d - 0x80)) # utf8 ds
                       else 0xFFFD # utf8 cs)
             else 0xFFFD # utf8 bs)
      else if 0xF0 \<le> b \<and> b \<le> 0xF4 then
        (case bs of
           [] \<Rightarrow> [0xFFFD]
         | c # cs \<Rightarrow>
             if (if b = 0xF0 then 0x90 else 0x80) \<le> c \<and> c \<le> (if b = 0xF4 then 0x8F else 0xBF)
             then (case cs of
                     [] \<Rightarrow> [0xFFFD]
                   | d # ds \<Rightarrow>
                       if 0x80 \<le> d \<and> d \<le> 0xBF
                       then (case ds of
                               [] \<Rightarrow> [0xFFFD]
                             | e # es \<Rightarrow>
                                 if 0x80 \<le> e \<and> e \<le> 0xBF
                                 then ((b - 0xF0) * 0x40000 + (c - 0x80) * 0x1000
                                        + (d - 0x80) * 0x40 + (e - 0x80)) # utf8 es
                                 else 0xFFFD # utf8 ds)
                       else 0xFFFD # utf8 cs)
             else 0xFFFD # utf8 bs)
      else 0xFFFD # utf8 bs)"

definition codeUnits :: "nat \<Rightarrow> jsstring" where
  "codeUnits cp =
     (if cp < 0x10000 then [of_nat cp]
      else [of_nat (0xD800 + (cp - 0x10000) div 0x400), of_nat (0xDC00 + (cp - 0x10000) mod 0x400)])"

definition toString :: "8 word list \<Rightarrow> jsstring" where
  "toString data = concat (map codeUnits (utf8 (map unat data)))"

text \<open>Values that \<^verbatim>\<open>config.auth_token\<close> and a token read from a URL can be.\<close>

datatype jsvalue = JUndefined | JNull | JString jsstring | JOther

text \<open>\<^verbatim>\<open>searchParams.get('token')\<close> is a string, or null when the parameter is absent.\<close>

definition tokenValue :: "jsstring option \<Rightarrow> jsvalue" where
  "tokenValue t = (case t of None \<Rightarrow> JNull | Some s \<Rightarrow> JString s)"

text \<open>
  What \<^verbatim>\<open>new URL(req.url, 'http://' + req.headers.host)\<close> does for a request: it
  throws a \<^verbatim>\<open>TypeError\<close> when the request target or the base does not parse
  (\<open>InvalidURL\<close>; the request target \<^verbatim>\<open>//?token=x\<close> is one, its host is empty), or
  it gives the URL, of which the source reads \<^verbatim>\<open>searchParams.get('token')\<close> only.
\<close>

datatype urlResult = InvalidURL | URL "jsstring option"

text \<open>A value in a template literal: \<^verbatim>\<open>undefined\<close> is rendered by its name.\<close>

definition template :: "jsstring option \<Rightarrow> jsstring" where
  "template v = (case v of None \<Rightarrow> lit ''undefined'' | Some s \<Rightarrow> s)"

subsection \<open>Configuration constants\<close>

text \<open>
  The constants the source derives from \<^verbatim>\<open>server_config.json\<close> (lines 23 to 28).
  Reading the file is outside the relay; the constants are a parameter of every function
  that uses one. The port, the path and the baud rate only appear in console lines and
  are kept as the text a template literal renders.
\<close>

record constants =
  DEBUG :: bool
  AUTH_TOKEN :: jsvalue
  WS_PORT :: jsstring
  SERIAL_PORT :: jsstring
  SERIAL_BAUDRATE :: jsstring
  POLL_INTERVAL :: nat

subsection \<open>State\<close>

datatype consoleLine = ConsoleLog jsstring | ConsoleWarn jsstring | ConsoleError jsstring

datatype readyState = CONNECTING | OPEN | CLOSING | CLOSED

text \<open>
  A client socket of the \<^verbatim>\<open>ws\<close> library. \<open>cid\<close> is the object's identity
  (\<^verbatim>\<open>client !== sender\<close> compares identities). \<open>token\<close> is what the URL of the
  request that opened the socket gave. \<open>ip\<close> is the variable the connection handler's closures
  capture. \<open>messageListener\<close> and \<open>closeListener\<close> say whether the handler registered
  them. \<open>sendFails\<close> is the transport's side of \<^verbatim>\<open>send\<close>: on an open socket
  \<^verbatim>\<open>send\<close> does not throw, a failure goes to its optional callback, which the source
  does not pass.
\<close>

record client =
  cid :: nat
  token :: urlResult
  ip :: "jsstring option"
  readyState :: readyState
  messageListener :: bool
  closeListener :: bool
  sendFails :: bool

record server =
  clients :: "client list"

text \<open>
  The first five fields are the globals of lines 36 to 40 (\<open>None\<close> is
  \<^verbatim>\<open>undefined\<close> or \<^verbatim>\<open>null\<close>). The others are the runtime:
  \<^item> \<open>ports\<close>: the \<^verbatim>\<open>SerialPort\<close> objects created so far, each with the number of times
    \<open>setupSerialHandlers\<close> registered its listeners on it; \<open>serial\<close> is an index into it;
  \<^item> \<open>pendingOpens\<close>: the callbacks of \<^verbatim>\<open>serial.open\<close> not called yet;
  \<^item> \<open>timeouts\<close>: the pending \<^verbatim>\<open>setTimeout(initSerialPort, d)\<close>, each by its delay
    (the source keeps no handle of them);
  \<^item> \<open>intervals\<close>: the running \<^verbatim>\<open>setInterval\<close> timers, handle and period;
  \<^item> \<open>servers\<close>: how many \<^verbatim>\<open>WebSocket.Server\<close> objects were created;
  \<^item> \<open>written\<close>: the calls of \<^verbatim>\<open>serial.write\<close>, with the value of \<open>serial\<close> at the call;
  \<^item> \<open>broadcasts\<close>: the messages \<open>broadcastToClients\<close> was called with;
  \<^item> \<open>sent\<close>: the calls of \<^verbatim>\<open>client.send\<close>, by client; \<open>delivered\<close>: those that
    did not fail;
  \<^item> \<open>exited\<close>: the process has ended.
\<close>

record state =
  serial :: "nat option"
  wss :: "server option"
  serialConnected :: bool
  pollTimer :: "nat option"
  serialBuffer :: jsstring
  ports :: "nat list"
  pendingOpens :: nat
  timeouts :: "nat list"
  intervals :: "(nat \<times> nat) list"
  nextTimer :: nat
  nextClient :: nat
  servers :: nat
  written :: "(nat option \<times> jsstring) list"
  console :: "consoleLine list"
  broadcasts :: "jsstring list"
  sent :: "(nat \<times> jsstring) list"
  delivered :: "(nat \<times> jsstring) list"
  exited :: bool

definition init :: state where
  "init = \<lparr> serial = None, wss = None, serialConnected = False, pollTimer = None,
            serialBuffer = [], ports = [], pendingOpens = 0, timeouts = [], intervals = [],
            nextTimer = 0, nextClient = 0, servers = 0, written = [], console = [],
            broadcasts = [], sent = [], delivered = [], exited = False \<rparr>"

subsection \<open>Runtime calls\<close>

definition console_out :: "consoleLine \<Rightarrow> state \<Rightarrow> state" where
  "console_out l st = st\<lparr>console := console st @ [l]\<rparr>"

definition client_send :: "client \<Rightarrow> jsstring \<Rightarrow> state \<Rightarrow> state" where
  "client_send c m st =
     st\<lparr>sent := sent st @ [(cid c, m)],
        delivered := (if sendFails c then delivered st else delivered st @ [(cid c, m)])\<rparr>"

definition serial_write :: "jsstring \<Rightarrow> state \<Rightarrow> state" where
  "serial_write d st = st\<lparr>written := written st @ [(serial st, d)]\<rparr>"

definition setTimeout :: "nat \<Rightarrow> state \<Rightarrow> state" where
  "setTimeout d st = st\<lparr>timeouts := timeouts st @ [d]\<rparr>"

definition clearInterval :: "nat \<Rightarrow> state \<Rightarrow> state" where
  "clearInterval h st = st\<lparr>intervals := filter (\<lambda>t. fst t \<noteq> h) (intervals st)\<rparr>"

text \<open>The socket with identity \<open>k\<close> in \<^verbatim>\<open>wss.clients\<close>, changed by \<open>f\<close>.\<close>

definition updateClient :: "nat \<Rightarrow> (client \<Rightarrow> client) \<Rightarrow> state \<Rightarrow> state" where
  "updateClient k f st =
     (case wss st of
        None \<Rightarrow> st
      | Some srv \<Rightarrow>
          st\<lparr>wss := Some (srv\<lparr>clients := map (\<lambda>c. if cid c = k then f c else c) (clients srv)\<rparr>)\<rparr>)"

text \<open>\<^verbatim>\<open>ws.close()\<close>: an open socket is closing from the call on.\<close>

definition ws_close :: "client \<Rightarrow> client" where
  "ws_close c = (if readyState c = CLOSED then c else c\<lparr>readyState := CLOSING\<rparr>)"

text \<open>
  An exception that leaves a listener is caught by nothing (the source has no handler
  for \<^verbatim>\<open>uncaughtException\<close>): the process ends, and the sockets it holds are closed
  with it.
\<close>

definition uncaughtException :: "state \<Rightarrow> state" where
  "uncaughtException st =
     st\<lparr>wss := map_option
            (\<lambda>srv. srv\<lparr>clients := map (\<lambda>c. c\<lparr>readyState := CLOSED\<rparr>) (clients srv)\<rparr>) (wss st),
        exited := True\<rparr>"

subsection \<open>The functions of the source\<close>

text \<open>Lines 31 to 33.\<close>

definition debugLog :: "constants \<Rightarrow> jsstring \<Rightarrow> state \<Rightarrow> state" where
  "debugLog C msg st = (if DEBUG C then console_out (ConsoleLog msg) st else st)"

text \<open>
  Lines 43 to 50. \<open>sender\<close> is \<open>None\<close> for the default \<^verbatim>\<open>null\<close>. The first line
  records the call; the source has no counterpart of it.
\<close>

definition broadcastToClients :: "jsstring \<Rightarrow> nat option \<Rightarrow> state \<Rightarrow> state" where
  "broadcastToClients message sender st0 =
     (let st = st0\<lparr>broadcasts := broadcasts st0 @ [message]\<rparr> in
      case wss st of
        None \<Rightarrow> st
      | Some srv \<Rightarrow>
          fold (\<lambda>client s.
                  if Some (cid client) \<noteq> sender \<and> readyState client = OPEN
                  then client_send client message s else s)
               (clients srv) st)"

text \<open>Lines 53 to 62 and the call of \<^verbatim>\<open>serial.open\<close> at line 64.\<close>

definition initSerialPort :: "constants \<Rightarrow> state \<Rightarrow> state" where
  "initSerialPort C st0 =
     (let st = console_out (ConsoleLog (lit ''Attempting to open serial port '' @ SERIAL_PORT C
                  @ lit '' at '' @ SERIAL_BAUDRATE C @ lit ''...'')) st0;
          st = st\<lparr>serial := Some (length (ports st)), ports := ports st @ [0]\<rparr>
      in st\<lparr>pendingOpens := Suc (pendingOpens st)\<rparr>)"

text \<open>Lines 86 to 133 register three listeners on the port \<open>serial\<close> names at that time.\<close>

definition setupSerialHandlers :: "state \<Rightarrow> state" where
  "setupSerialHandlers st =
     (case serial st of
        None \<Rightarrow> st
      | Some p \<Rightarrow> st\<lparr>ports := (ports st)[p := Suc (ports st ! p)]\<rparr>)"

text \<open>Lines 147 to 152.\<close>

definition stopPolling :: "state \<Rightarrow> state" where
  "stopPolling st =
     (case pollTimer st of
        Some h \<Rightarrow> (clearInterval h st)\<lparr>pollTimer := None\<rparr>
      | None \<Rightarrow> st)"

text \<open>Lines 136 to 145; the callback of the interval is \<open>pollTick\<close> (lines 139 to 143).\<close>

definition startPolling :: "constants \<Rightarrow> state \<Rightarrow> state" where
  "startPolling C st0 =
     (let st = (case pollTimer st0 of Some h \<Rightarrow> clearInterval h st0 | None \<Rightarrow> st0)
      in st\<lparr>pollTimer := Some (nextTimer st),
            intervals := intervals st @ [(nextTimer st, POLL_INTERVAL C)],
            nextTimer := Suc (nextTimer st)\<rparr>)"

definition pollTick :: "state \<Rightarrow> state" where
  "pollTick st = (if serialConnected st then serial_write (lit ''=R'' @ [CR, LF]) st else st)"

text \<open>The callback of the two \<^verbatim>\<open>serial.write\<close> calls that pass one (lines 140, 185).\<close>

definition writeCallback :: "jsstring option \<Rightarrow> state \<Rightarrow> state" where
  "writeCallback err st =
     (case err of
        Some m \<Rightarrow> console_out (ConsoleError (lit ''Error writing to serial: '' @ m)) st
      | None \<Rightarrow> st)"

text \<open>Lines 155 to 159; the connection listener of line 161 is \<open>connectionHandler\<close>.\<close>

definition startWebSocketServer :: "constants \<Rightarrow> state \<Rightarrow> state" where
  "startWebSocketServer C st =
     (if wss st \<noteq> None then st
      else console_out (ConsoleLog (lit ''WebSocket Server started on port '' @ WS_PORT C))
             (st\<lparr>wss := Some \<lparr>clients = []\<rparr>, servers := Suc (servers st)\<rparr>))"

text \<open>The error listener, lines 87 to 94.\<close>

definition errorHandler :: "jsstring \<Rightarrow> state \<Rightarrow> state" where
  "errorHandler m st0 =
     (let st = console_out (ConsoleError (lit ''Serial port error: '' @ m)) st0;
          st = st\<lparr>serialConnected := False\<rparr>;
          st = stopPolling st;
          st = broadcastToClients (lit ''[STATUS] Serial error: '' @ m) None st;
          st = console_out (ConsoleLog (lit ''Reconnecting to serial port in 5 seconds...'')) st
      in setTimeout 5000 st)"

text \<open>The close listener, lines 96 to 102.\<close>

definition closeHandler :: "state \<Rightarrow> state" where
  "closeHandler st0 =
     (let st = console_out
                 (ConsoleWarn (lit ''Serial port closed. Retrying connection in 5 seconds...'')) st0;
          st = st\<lparr>serialConnected := False\<rparr>;
          st = stopPolling st;
          st = broadcastToClients (lit ''[STATUS] Serial disconnected'') None st
      in setTimeout 5000 st)"

text \<open>
  The data listener, lines 104 to 132. \<open>dat\<close> is the text \<^verbatim>\<open>data.toString()\<close> yields
  for the chunk: for the bytes \<open>data\<close> the listener is \<open>dataHandler C (toString data)\<close>.
\<close>

definition overflowWarning :: consoleLine where
  "overflowWarning = ConsoleWarn (lit ''Serial buffer overflow, clearing incomplete data'')"

definition dataHandler :: "constants \<Rightarrow> jsstring \<Rightarrow> state \<Rightarrow> state" where
  "dataHandler C dat st0 =
     (let st = debugLog C (lit ''RAW COM DATA: '' @ dat) st0;
          st = st\<lparr>serialBuffer := serialBuffer st @ dat\<rparr>;
          st = st\<lparr>serialBuffer := filter (\<lambda>c. c \<noteq> CR) (serialBuffer st)\<rparr>;
          lines = split LF (serialBuffer st);
          st = st\<lparr>serialBuffer := last lines\<rparr>;
          lines = butlast lines;
          st = fold (\<lambda>line s.
                       let line = trim line in
                       if length line > 0
                       then broadcastToClients line None (debugLog C (lit ''COM->WS | '' @ line) s)
                       else s)
                    lines st
      in if length (serialBuffer st) > 1024
         then (console_out overflowWarning st)\<lparr>serialBuffer := []\<rparr>
         else st)"

text \<open>The callback of \<^verbatim>\<open>serial.open\<close>, lines 64 to 83.\<close>

definition openCallback :: "constants \<Rightarrow> jsstring option \<Rightarrow> state \<Rightarrow> state" where
  "openCallback C err st0 =
     (case err of
        Some m \<Rightarrow>
          (let st = console_out (ConsoleError (lit ''Failed to open '' @ SERIAL_PORT C
                       @ lit '': '' @ m)) st0;
               st = console_out (ConsoleLog (lit ''Retrying in 5 seconds...'' @ [LF])) st
           in setTimeout 5000 st)
      | None \<Rightarrow>
          (let st = st0\<lparr>serialConnected := True\<rparr>;
               st = console_out (ConsoleLog (lit ''Serial port '' @ SERIAL_PORT C
                       @ lit '' opened successfully at '' @ SERIAL_BAUDRATE C
                       @ lit '' 8N1'' @ [LF])) st;
               st = startWebSocketServer C st;
               st = broadcastToClients (lit ''[STATUS] Serial connected'') None st;
               st = setupSerialHandlers st
           in startPolling C st))"

text \<open>
  The connection listener, lines 161 to 193, for the socket \<open>k\<close> and its request:
  \<open>remoteAddress\<close> is \<^verbatim>\<open>req.socket.remoteAddress\<close> and \<open>url\<close> is what
  \<^verbatim>\<open>new URL(req.url, 'http://' + req.headers.host)\<close> does at line 166. The call is
  in no \<^verbatim>\<open>try\<close> block: when it throws, the exception leaves the listener after the
  first console line and before the token is compared.
\<close>

definition connectionHandler ::
  "constants \<Rightarrow> nat \<Rightarrow> jsstring option \<Rightarrow> urlResult \<Rightarrow> state \<Rightarrow> state" where
  "connectionHandler C k remoteAddress url st0 =
     (let ip' = (case remoteAddress of
                   None \<Rightarrow> None
                 | Some a \<Rightarrow> if a \<noteq> [] \<and> take 7 a = lit ''::ffff:'' then Some (drop 7 a)
                             else Some a);
          st = updateClient k (\<lambda>c. c\<lparr>ip := ip'\<rparr>) st0;
          st = console_out (ConsoleLog (lit ''WebSocket client connected from IP: ''
                  @ template ip')) st
      in case url of
           InvalidURL \<Rightarrow> uncaughtException st
         | URL tok \<Rightarrow>
             if tokenValue tok \<noteq> AUTH_TOKEN C
             then updateClient k ws_close
                    (console_out (ConsoleLog (lit ''Invalid token from IP: '' @ template ip')) st)
             else
               (let st = (if serialConnected st then serial_write (lit ''=R'' @ [CR, LF]) st
                          else st)
                in updateClient k (\<lambda>c. c\<lparr>messageListener := True, closeListener := True\<rparr>) st))"

text \<open>
  The message listener, lines 180 to 188. \<open>message\<close> is the text the concatenation
  \<^verbatim>\<open>message + '\r\n'\<close> makes of the payload.
\<close>

definition messageHandler :: "jsstring \<Rightarrow> state \<Rightarrow> state" where
  "messageHandler message st =
     (if \<not> serialConnected st
      then console_out (ConsoleWarn (lit ''Serial not connected '' @ [0xE2, 0x20AC, 0x201D]
              @ lit '' WS message ignored'')) st
      else serial_write (message @ [CR, LF]) st)"

text \<open>The close listener of a socket, lines 190 to 192.\<close>

definition wsCloseHandler :: "constants \<Rightarrow> jsstring option \<Rightarrow> state \<Rightarrow> state" where
  "wsCloseHandler C ip' st =
     debugLog C (lit ''WebSocket client from '' @ template ip' @ lit '' disconnected'') st"

subsection \<open>Events\<close>

text \<open>
  What the runtime can deliver: the result of a pending \<^verbatim>\<open>serial.open\<close>; an
  \<^verbatim>\<open>error\<close>, \<^verbatim>\<open>close\<close> or \<^verbatim>\<open>data\<close> event of a port object (the data
  are the bytes of a \<^verbatim>\<open>Buffer\<close>); a tick
  of an interval timer; the expiry of a pending timeout; the result of a write that
  passed a callback; a new client socket (remote address, what parsing the URL of its
  request gives, and whether sends to it fail); a message of a client socket; the closing
  of a client socket.
\<close>

datatype event =
    OpenResult "jsstring option"
  | SerialError nat jsstring
  | SerialClose nat
  | SerialData nat "8 word list"
  | IntervalTick nat
  | TimeoutFires nat
  | WriteResult "jsstring option"
  | WsConnection "jsstring option" urlResult bool
  | WsMessage nat jsstring
  | WsClosed nat

definition listeners :: "nat \<Rightarrow> state \<Rightarrow> nat" where
  "listeners p st = (if p < length (ports st) then ports st ! p else 0)"

definition wssClients :: "state \<Rightarrow> client list" where
  "wssClients st = (case wss st of None \<Rightarrow> [] | Some srv \<Rightarrow> clients srv)"

text \<open>
  The library accepts a socket: it is open, in \<^verbatim>\<open>wss.clients\<close>, and has no
  listener yet when the connection listener is called.
\<close>

definition accept :: "nat \<Rightarrow> urlResult \<Rightarrow> bool \<Rightarrow> state \<Rightarrow> state" where
  "accept k url fails st =
     (case wss st of
        None \<Rightarrow> st
      | Some srv \<Rightarrow>
          st\<lparr>wss := Some (srv\<lparr>clients := clients srv @
                  [\<lparr>cid = k, token = url, ip = None, readyState = OPEN,
                    messageListener = False, closeListener = False, sendFails = fails\<rparr>]\<rparr>),
             nextClient := Suc k\<rparr>)"

text \<open>The library drops a closed socket from \<^verbatim>\<open>wss.clients\<close>.\<close>

definition dropClient :: "nat \<Rightarrow> state \<Rightarrow> state" where
  "dropClient k st =
     (case wss st of
        None \<Rightarrow> st
      | Some srv \<Rightarrow> st\<lparr>wss := Some (srv\<lparr>clients := filter (\<lambda>c. cid c \<noteq> k) (clients srv)\<rparr>)\<rparr>)"

text \<open>
  An event runs the listeners registered for it, once for each registration: a port has
  listeners only once \<open>setupSerialHandlers\<close> ran on it, a socket only once the
  connection listener accepted its token, and connections arrive only once the server
  exists. With no listener nothing runs, except for an \<^verbatim>\<open>error\<close> event: an emitter
  without \<^verbatim>\<open>error\<close> listener throws the error, which nothing catches.
\<close>

definition step :: "constants \<Rightarrow> event \<Rightarrow> state \<Rightarrow> state" where
  "step C e st =
     (case e of
        OpenResult err \<Rightarrow>
          if pendingOpens st = 0 then st
          else openCallback C err (st\<lparr>pendingOpens := pendingOpens st - 1\<rparr>)
      | SerialError p m \<Rightarrow>
          if listeners p st = 0 then uncaughtException st
          else (errorHandler m ^^ listeners p st) st
      | SerialClose p \<Rightarrow> (closeHandler ^^ listeners p st) st
      | SerialData p data \<Rightarrow> (dataHandler C (toString data) ^^ listeners p st) st
      | IntervalTick h \<Rightarrow> if h \<in> fst ` set (intervals st) then pollTick st else st
      | TimeoutFires i \<Rightarrow>
          if i < length (timeouts st)
          then initSerialPort C (st\<lparr>timeouts := take i (timeouts st) @ drop (Suc i) (timeouts st)\<rparr>)
          else st
      | WriteResult err \<Rightarrow> writeCallback err st
      | WsConnection addr url fails \<Rightarrow>
          if wss st = None then st
          else connectionHandler C (nextClient st) addr url (accept (nextClient st) url fails st)
      | WsMessage k message \<Rightarrow>
          if \<exists>c \<in> set (wssClients st). cid c = k \<and> messageListener c
          then messageHandler message st else st
      | WsClosed k \<Rightarrow>
          fold (\<lambda>c s. if closeListener c then wsCloseHandler C (ip c) s else s)
               (filter (\<lambda>c. cid c = k) (wssClients st)) (dropClient k st))"

text \<open>
  The process handles the events one after the other, as long as it lives: once it has
  ended, no event is delivered any more.
\<close>

fun run :: "constants \<Rightarrow> event list \<Rightarrow> state \<Rightarrow> state" where
  "run C [] st = st"
| "run C (e # es) st = (if exited st then st else run C es (step C e st))"

text \<open>Line 197: the process starts by calling \<open>initSerialPort\<close>.\<close>

definition main :: "constants \<Rightarrow> state" where
  "main C = initSerialPort C init"

text \<open>
  The data listener called on a sequence of chunks, one after the other, each chunk by its
  text: for the byte chunks \<open>datas\<close> it is \<open>feed C (map toString datas)\<close>.
\<close>

fun feed :: "constants \<Rightarrow> jsstring list \<Rightarrow> state \<Rightarrow> state" where
  "feed C [] st = st"
| "feed C (dat # chunks) st = feed C chunks (dataHandler C dat st)"

text \<open>Constants for the examples: the defaults of lines 23 to 28 and a token.\<close>

definition exampleConstants :: constants where
  "exampleConstants =
     \<lparr> DEBUG = False, AUTH_TOKEN = JString (lit ''secret''), WS_PORT = lit ''8080'',
       SERIAL_PORT = lit ''COM5'', SERIAL_BAUDRATE = lit ''115200'', POLL_INTERVAL = 2000 \<rparr>"

subsection \<open>Notions the properties are stated with\<close>

text \<open>The sockets a broadcast reaches: open, and not the excluded sender.\<close>

definition recipients :: "nat option \<Rightarrow> state \<Rightarrow> client list" where
  "recipients sender st =
     filter (\<lambda>c. Some (cid c) \<noteq> sender \<and> readyState c = OPEN) (wssClients st)"

text \<open>
  The frames of a text as the specification describes them: carriage returns removed,
  split at line feeds, every terminated segment trimmed, empty results left out. The
  segment after the last line feed has no terminator and is no frame.
\<close>

definition spec_frames :: "jsstring \<Rightarrow> jsstring list" where
  "spec_frames txt =
     filter (\<lambda>l. l \<noteq> []) (map trim (butlast (split LF (filter (\<lambda>c. c \<noteq> CR) txt))))"

definition authenticated :: "constants \<Rightarrow> client \<Rightarrow> bool" where
  "authenticated C c \<longleftrightarrow>
     (case token c of InvalidURL \<Rightarrow> False | URL tok \<Rightarrow> tokenValue tok = AUTH_TOKEN C)"

definition authInv :: "constants \<Rightarrow> state \<Rightarrow> bool" where
  "authInv C st \<longleftrightarrow>
     (\<forall>c \<in> set (wssClients st).
        cid c < nextClient st \<and>
        (readyState c = OPEN \<or> messageListener c \<longrightarrow> authenticated C c)) \<and>
     (\<forall>x \<in> set (sent st). fst x < nextClient st)"

definition timerInv :: "state \<Rightarrow> bool" where
  "timerInv st \<longleftrightarrow>
     map fst (intervals st) = (case pollTimer st of None \<Rightarrow> [] | Some h \<Rightarrow> [h])"

definition serverInv :: "state \<Rightarrow> bool" where
  "serverInv st \<longleftrightarrow> servers st = (if wss st = None then 0 else 1)"


definition requestIp :: "jsstring option \<Rightarrow> jsstring option" where
  "requestIp remoteAddress =
     (case remoteAddress of
        None \<Rightarrow> None
      | Some a \<Rightarrow> if a \<noteq> [] \<and> take 7 a = lit ''::ffff:'' then Some (drop 7 a) else Some a)"

definition sameButConsole :: "state \<Rightarrow> state \<Rightarrow> bool" where
  "sameButConsole s t \<longleftrightarrow> s\<lparr>console := []\<rparr> = t\<lparr>console := []\<rparr>"

definition consoleBlind :: "(state \<Rightarrow> state) \<Rightarrow> bool" where
  "consoleBlind h \<longleftrightarrow> (\<forall>s cs. (h (s\<lparr>console := cs\<rparr>))\<lparr>console := []\<rparr> = (h s)\<lparr>console := []\<rparr>)"

section \<open>Properties\<close>

subsection \<open>Splitting\<close>

lemma split_not_Nil [simp]: "split sep xs \<noteq> []"
  by (induction xs) (simp_all add: Let_def)

lemma split_no_sep: "sep \<notin> set xs \<Longrightarrow> split sep xs = [xs]"
  by (induction xs) (auto simp: Let_def)

lemma split_segments: "s \<in> set (split sep xs) \<Longrightarrow> sep \<notin> set s"
proof (induction xs arbitrary: s)
  case Nil
  then show ?case by simp
next
  case (Cons c cs)
  obtain l ls where r: "split sep cs = l # ls"
    by (cases "split sep cs") simp_all
  with Cons show ?case
    by (auto simp: Let_def split: if_splits)
qed

lemma split_append:
  "split sep (xs @ ys) =
     butlast (split sep xs) @ (last (split sep xs) @ hd (split sep ys)) # tl (split sep ys)"
proof (induction xs)
  case Nil
  then show ?case by (cases "split sep ys") simp_all
next
  case (Cons c cs)
  obtain l ls where r: "split sep cs = l # ls"
    by (cases "split sep cs") simp_all
  show ?case
  proof (cases "c = sep")
    case True
    with Cons show ?thesis by simp
  next
    case False
    with Cons r show ?thesis
      by (cases ls) (simp_all add: Let_def)
  qed
qed

subsection \<open>Closed forms of the loops\<close>

lemma fold_send:
  "fold (\<lambda>client s. if Some (cid client) \<noteq> sender \<and> readyState client = OPEN
                     then client_send client message s else s) cs st =
   st\<lparr>sent := sent st @ map (\<lambda>c. (cid c, message))
                (filter (\<lambda>c. Some (cid c) \<noteq> sender \<and> readyState c = OPEN) cs),
      delivered := delivered st @ map (\<lambda>c. (cid c, message))
                (filter (\<lambda>c. (Some (cid c) \<noteq> sender \<and> readyState c = OPEN) \<and> \<not> sendFails c) cs)\<rparr>"
  by (induction cs arbitrary: st) (simp_all add: client_send_def)

lemma broadcastToClients_eq:
  "broadcastToClients message sender st =
   st\<lparr>broadcasts := broadcasts st @ [message],
      sent := sent st @ map (\<lambda>c. (cid c, message)) (recipients sender st),
      delivered := delivered st @ map (\<lambda>c. (cid c, message))
                     (filter (\<lambda>c. \<not> sendFails c) (recipients sender st))\<rparr>"
  by (simp add: broadcastToClients_def recipients_def wssClients_def fold_send Let_def
           split: option.splits)


lemma recipients_update [simp]:
  "recipients s (console_update f0 st) = recipients s st"
  "recipients s (broadcasts_update f1 st) = recipients s st"
  "recipients s (sent_update f2 st) = recipients s st"
  "recipients s (delivered_update f3 st) = recipients s st"
  "recipients s (serialBuffer_update f4 st) = recipients s st"
  by (simp_all add: recipients_def wssClients_def)

lemma fold_lines:
  "fold (\<lambda>line s.
           if trim line \<noteq> []
           then broadcastToClients (trim line) None (debugLog C (tag @ trim line) s)
           else s) ls st =
   st\<lparr>broadcasts := broadcasts st @ filter (\<lambda>l. l \<noteq> []) (map trim ls),
      sent := sent st @ concat (map (\<lambda>m. map (\<lambda>c. (cid c, m)) (recipients None st))
                (filter (\<lambda>l. l \<noteq> []) (map trim ls))),
      delivered := delivered st @ concat (map (\<lambda>m. map (\<lambda>c. (cid c, m))
                (filter (\<lambda>c. \<not> sendFails c) (recipients None st)))
                (filter (\<lambda>l. l \<noteq> []) (map trim ls))),
      console := console st @ (if DEBUG C
                then map (\<lambda>m. ConsoleLog (tag @ m)) (filter (\<lambda>l. l \<noteq> []) (map trim ls))
                else [])\<rparr>"
proof (induction ls arbitrary: st)
  case Nil
  then show ?case by simp
next
  case (Cons l ls)
  show ?case
    by (simp add: Cons.IH broadcastToClients_eq debugLog_def console_out_def)
qed

lemma dataHandler_eq:
  "dataHandler C dat st =
   (let segs = split LF (filter (\<lambda>c. c \<noteq> CR) (serialBuffer st @ dat));
        fs = filter (\<lambda>l. l \<noteq> []) (map trim (butlast segs))
    in st\<lparr>serialBuffer := (if 1024 < length (last segs) then [] else last segs),
          broadcasts := broadcasts st @ fs,
          sent := sent st @ concat (map (\<lambda>m. map (\<lambda>c. (cid c, m)) (recipients None st)) fs),
          delivered := delivered st @ concat (map (\<lambda>m. map (\<lambda>c. (cid c, m))
                (filter (\<lambda>c. \<not> sendFails c) (recipients None st))) fs),
          console := console st
             @ (if DEBUG C then [ConsoleLog (lit ''RAW COM DATA: '' @ dat)] else [])
             @ (if DEBUG C then map (\<lambda>m. ConsoleLog (lit ''COM->WS | '' @ m)) fs else [])
             @ (if 1024 < length (last segs) then [overflowWarning] else [])\<rparr>)"
proof -
  define segs where "segs = split LF (filter (\<lambda>c. c \<noteq> CR) (serialBuffer st @ dat))"
  define fs where "fs = filter (\<lambda>l. l \<noteq> []) (map trim (butlast segs))"
  define s1 where
    "s1 = (debugLog C (lit ''RAW COM DATA: '' @ dat) st)\<lparr>serialBuffer := last segs\<rparr>"
  define s2 where
    "s2 = fold (\<lambda>line s.
                  if trim line \<noteq> []
                  then broadcastToClients (trim line) None
                         (debugLog C (lit ''COM->WS | '' @ trim line) s)
                  else s) (butlast segs) s1"
  have d: "dataHandler C dat st =
      (if 1024 < length (serialBuffer s2)
       then (console_out overflowWarning s2)\<lparr>serialBuffer := []\<rparr> else s2)"
  proof -
    have "serialBuffer (debugLog C m st) = serialBuffer st" for m
      by (simp add: debugLog_def console_out_def)
    then show ?thesis
      unfolding dataHandler_def s2_def s1_def segs_def by (simp add: Let_def)
  qed
  have s2: "s2 = s1\<lparr>broadcasts := broadcasts s1 @ fs,
      sent := sent s1 @ concat (map (\<lambda>m. map (\<lambda>c. (cid c, m)) (recipients None s1)) fs),
      delivered := delivered s1 @ concat (map (\<lambda>m. map (\<lambda>c. (cid c, m))
                (filter (\<lambda>c. \<not> sendFails c) (recipients None s1))) fs),
      console := console s1
             @ (if DEBUG C then map (\<lambda>m. ConsoleLog (lit ''COM->WS | '' @ m)) fs else [])\<rparr>"
    unfolding s2_def fs_def by (rule fold_lines)
  have s1: "s1 = st\<lparr>console := console st
             @ (if DEBUG C then [ConsoleLog (lit ''RAW COM DATA: '' @ dat)] else []),
         serialBuffer := last segs\<rparr>"
    unfolding s1_def by (simp add: debugLog_def console_out_def)
  show ?thesis
    unfolding Let_def segs_def [symmetric] fs_def [symmetric] d
    by (simp add: s2 s1 console_out_def)
qed

subsection \<open>Framing\<close>

lemma split_subset: "s \<in> set (split sep xs) \<Longrightarrow> set s \<subseteq> set xs"
proof (induction xs arbitrary: s)
  case Nil
  then show ?case by simp
next
  case (Cons c cs)
  obtain l ls where r: "split sep cs = l # ls"
    by (cases "split sep cs") simp_all
  with Cons.prems Cons.IH [of l] Cons.IH show ?case
    by (fastforce simp: Let_def split: if_splits)
qed

lemma last_split_clean: "sep \<notin> set (last (split sep xs))"
  by (rule split_segments [of _ sep xs]) simp

lemma last_split_subset: "set (last (split sep xs)) \<subseteq> set xs"
  by (rule split_subset [of _ sep xs]) simp

lemma split_append_last:
  "split sep (xs @ ys) = butlast (split sep xs) @ split sep (last (split sep xs) @ ys)"
proof -
  have "split sep (last (split sep xs)) = [last (split sep xs)]"
    by (rule split_no_sep) (rule last_split_clean)
  then have "split sep (last (split sep xs) @ ys)
      = (last (split sep xs) @ hd (split sep ys)) # tl (split sep ys)"
    by (simp add: split_append [of sep "last (split sep xs)" ys])
  then show ?thesis
    by (simp add: split_append [of sep xs ys])
qed

lemma split_terminated: "sep \<notin> set xs \<Longrightarrow> split sep (xs @ sep # ys) = xs # split sep ys"
  by (simp add: split_append [of sep xs "sep # ys"] split_no_sep)

lemma trim_keeps:
  "s \<noteq> [] \<Longrightarrow> \<not> isWhiteSpace (hd s) \<Longrightarrow> \<not> isWhiteSpace (last s) \<Longrightarrow> trim s = s"
proof -
  assume s: "s \<noteq> []" and h: "\<not> isWhiteSpace (hd s)" and l: "\<not> isWhiteSpace (last s)"
  from s h have "dropWhile isWhiteSpace s = s"
    by (cases s) simp_all
  moreover from s l have "dropWhile isWhiteSpace (rev s) = rev s"
    by (cases "rev s") (simp_all add: last_rev [symmetric] hd_rev)
  ultimately show ?thesis
    by (simp add: trim_def)
qed

lemma dataHandler_buffer:
  "serialBuffer (dataHandler C dat st) =
     (let r = last (split LF (filter (\<lambda>c. c \<noteq> CR) (serialBuffer st @ dat)))
      in if 1024 < length r then [] else r)"
  by (simp add: dataHandler_eq Let_def)

lemma dataHandler_broadcasts:
  "broadcasts (dataHandler C dat st) =
     broadcasts st @ filter (\<lambda>l. l \<noteq> [])
       (map trim (butlast (split LF (filter (\<lambda>c. c \<noteq> CR) (serialBuffer st @ dat)))))"
  by (simp add: dataHandler_eq Let_def)

lemma overflowWarning_not_log: "overflowWarning \<noteq> ConsoleLog m"
  by (simp add: overflowWarning_def)

lemma dataHandler_overflows:
  "count_list (console (dataHandler C dat st)) overflowWarning =
     count_list (console st) overflowWarning +
     (if 1024 < length (last (split LF (filter (\<lambda>c. c \<noteq> CR) (serialBuffer st @ dat))))
      then 1 else 0)"
proof -
  have "count_list (map (\<lambda>m. ConsoleLog (f m)) ms) overflowWarning = 0"
    for f :: "jsstring \<Rightarrow> jsstring" and ms :: "jsstring list"
    by (induction ms) (simp_all add: overflowWarning_def)
  then show ?thesis
    by (simp add: dataHandler_eq Let_def overflowWarning_not_log)
qed

lemma dataHandler_buffer_clean:
  "CR \<notin> set (serialBuffer (dataHandler C dat st)) \<and> LF \<notin> set (serialBuffer (dataHandler C dat st))"
proof -
  let ?t = "filter (\<lambda>c. c \<noteq> CR) (serialBuffer st @ dat)"
  have "CR \<notin> set ?t" by simp
  with last_split_subset [of LF ?t] have "CR \<notin> set (last (split LF ?t))" by blast
  with last_split_clean [of LF ?t] show ?thesis
    by (simp add: dataHandler_buffer Let_def)
qed

lemma feed_overflows_mono:
  "count_list (console st) overflowWarning \<le> count_list (console (feed C chunks st)) overflowWarning"
proof (induction chunks arbitrary: st)
  case Nil
  then show ?case by simp
next
  case (Cons d ds)
  have "count_list (console st) overflowWarning
      \<le> count_list (console (dataHandler C d st)) overflowWarning"
    by (simp add: dataHandler_overflows)
  also have "\<dots> \<le> count_list (console (feed C ds (dataHandler C d st))) overflowWarning"
    by (rule Cons.IH)
  finally show ?case by simp
qed

lemma feed_no_overflow:
  assumes "CR \<notin> set (serialBuffer st)" and "LF \<notin> set (serialBuffer st)"
    and "count_list (console (feed C chunks st)) overflowWarning
          = count_list (console st) overflowWarning"
  shows "broadcasts (feed C chunks st) =
           broadcasts st @ filter (\<lambda>l. l \<noteq> [])
             (map trim (butlast (split LF (serialBuffer st @ filter (\<lambda>c. c \<noteq> CR) (concat chunks)))))"
  using assms
proof (induction chunks arbitrary: st)
  case Nil
  then show ?case by (simp add: split_no_sep)
next
  case (Cons d ds)
  let ?b = "serialBuffer st"
  let ?st' = "dataHandler C d st"
  let ?r = "last (split LF (?b @ filter (\<lambda>c. c \<noteq> CR) d))"
  let ?rest = "filter (\<lambda>c. c \<noteq> CR) (concat ds)"
  from Cons.prems(1) have clean: "filter (\<lambda>c. c \<noteq> CR) ?b = ?b"
    by (auto simp: filter_id_conv)
  have "count_list (console st) overflowWarning \<le> count_list (console ?st') overflowWarning"
    by (simp add: dataHandler_overflows)
  moreover have "count_list (console ?st') overflowWarning
      \<le> count_list (console (feed C ds ?st')) overflowWarning"
    by (rule feed_overflows_mono)
  ultimately have same: "count_list (console ?st') overflowWarning
      = count_list (console st) overflowWarning"
    and rest: "count_list (console (feed C ds ?st')) overflowWarning
      = count_list (console ?st') overflowWarning"
    using Cons.prems(3) by simp_all
  from same have fits: "\<not> 1024 < length ?r"
    by (simp add: dataHandler_overflows clean split: if_splits)
  then have buf: "serialBuffer ?st' = ?r"
    by (simp add: dataHandler_buffer clean)
  have "broadcasts (feed C ds ?st') =
          broadcasts ?st' @ filter (\<lambda>l. l \<noteq> [])
            (map trim (butlast (split LF (serialBuffer ?st' @ ?rest))))"
    using dataHandler_buffer_clean [of C d st] rest by (intro Cons.IH) simp_all
  moreover have "split LF (?b @ filter (\<lambda>c. c \<noteq> CR) (concat (d # ds)))
      = butlast (split LF (?b @ filter (\<lambda>c. c \<noteq> CR) d)) @ split LF (?r @ ?rest)"
    using split_append_last [of LF "?b @ filter (\<lambda>c. c \<noteq> CR) d" ?rest] by simp
  ultimately show ?case
    by (simp add: buf dataHandler_broadcasts clean butlast_append)
qed

subsection \<open>Examples with a line of 1025 characters\<close>

lemma init_fields:
  "serialBuffer init = []" "broadcasts init = []" "console init = []" "wss init = None"
  "sent init = []" "written init = []" "timeouts init = []"
  by (simp_all add: init_def)

lemma not_white_A: "\<not> isWhiteSpace 0x41" "\<not> isWhiteSpace 0x42"
  by (simp_all add: isWhiteSpace_def)

lemma split_long:
  "split LF (replicate n 0x41) = [replicate n 0x41]"
  by (rule split_no_sep) simp

lemma trim_long:
  "0 < n \<Longrightarrow> xs = [] \<or> xs = [0x42] \<Longrightarrow> trim (replicate n 0x41 @ xs) = replicate n 0x41 @ xs"
  by (auto intro!: trim_keeps simp: not_white_A hd_append)

lemma ex1: "dataHandler exampleConstants (replicate 1025 0x41) init =
   init\<lparr>console := [overflowWarning]\<rparr>"
  by (simp add: dataHandler_eq split_long init_fields exampleConstants_def)

text \<open>What a run of the data listener broadcasts depends on the state through the buffer only.\<close>

lemma feed_from_buffer:
  "serialBuffer st1 = serialBuffer st2 \<Longrightarrow>
     \<exists>fs. broadcasts (feed C chunks st1) = broadcasts st1 @ fs \<and>
          broadcasts (feed C chunks st2) = broadcasts st2 @ fs"
proof (induction chunks arbitrary: st1 st2)
  case Nil
  then show ?case by simp
next
  case (Cons d ds)
  from Cons.prems have "serialBuffer (dataHandler C d st1) = serialBuffer (dataHandler C d st2)"
    by (simp add: dataHandler_buffer)
  from Cons.IH [OF this] obtain fs where
    "broadcasts (feed C ds (dataHandler C d st1)) = broadcasts (dataHandler C d st1) @ fs"
    "broadcasts (feed C ds (dataHandler C d st2)) = broadcasts (dataHandler C d st2) @ fs"
    by blast
  with Cons.prems show ?case
    by (simp add: dataHandler_broadcasts)
qed

subsection \<open>Decoding\<close>

lemma utf8_ascii: "\<forall>b \<in> set bs. b < 0x80 \<Longrightarrow> utf8 bs = bs"
  by (induction bs) simp_all

lemma unat_byte: "unat b < 0x10000" for b :: "8 word"
proof -
  have "unat b < 2 ^ LENGTH(8)"
    by (rule unsigned_less)
  also have "\<dots> \<le> (0x10000 :: nat)"
    by simp
  finally show ?thesis .
qed

lemma toString_ascii:
  assumes "\<forall>b \<in> set data. b < 0x80"
  shows "toString data = map ucast data"
proof -
  from assms have "\<forall>b \<in> set (map unat data). b < 0x80"
    by (auto simp: word_less_nat_alt)
  then have "utf8 (map unat data) = map unat data"
    by (rule utf8_ascii)
  moreover have "codeUnits (unat b) = [ucast b]" for b :: "8 word"
    using unat_byte [of b] by (simp add: codeUnits_def)
  ultimately show ?thesis
    by (simp add: toString_def comp_def)
qed

lemma toString_long: "toString (replicate n 0x41) = replicate n 0x41"
  by (simp add: toString_ascii)

lemma toString_concat_ascii:
  assumes "\<forall>b \<in> set (concat chunks). b < 0x80"
  shows "concat (map toString chunks) = toString (concat chunks)"
proof -
  from assms have "map toString chunks = map (map ucast) chunks"
    by (intro map_cong refl toString_ascii) auto
  then have "concat (map toString chunks) = map ucast (concat chunks)"
    by (simp only: map_concat)
  also from assms have "\<dots> = toString (concat chunks)"
    by (rule toString_ascii [symmetric])
  finally show ?thesis .
qed

lemma utf8_e_acute: "utf8 (concat (replicate n [0xC3, 0xA9]) @ bs) = replicate n 0xE9 @ utf8 bs"
  by (induction n) simp_all

lemma toString_e_acute: "toString (concat (replicate n [0xC3, 0xA9])) = replicate n 0xE9"
proof -
  have "map unat (concat (replicate n [0xC3, 0xA9 :: 8 word])) = concat (replicate n [0xC3, 0xA9])"
    by (induction n) simp_all
  then show ?thesis
    using utf8_e_acute [of n "[]"] by (simp add: toString_def codeUnits_def)
qed

lemma toString_examples:
  "toString [0x41, 0xC3] = [0x41, 0xFFFD]"
  "toString [0xA9, 0x0A] = [0xFFFD, LF]"
  "toString [0x41, 0xC3, 0xA9, 0x0A] = [0x41, 0xE9, LF]"
  "toString [0x41, 0xC3, 0xA9] = [0x41, 0xE9]"
  "toString [0x42, 0x0A] = [0x42, LF]"
  "toString [0x41, 0xC3, 0xA9, 0x42, 0x0A] = [0x41, 0xE9, 0x42, LF]"
  "toString [0x0A] = [LF]"
  by (simp_all add: toString_def codeUnits_def)

lemma not_white_more: "\<not> isWhiteSpace 0xE9" "\<not> isWhiteSpace 0xFFFD"
  by (simp_all add: isWhiteSpace_def)

subsection \<open>C1: framing and chunk boundaries\<close>

text \<open>
  Claim C1, as amended. The port delivers bytes, and the listener decodes every chunk by
  itself (line 109). Take any byte sequence and any partition of it into chunks, fed one
  by one to the data listener, starting from an empty buffer, such that the overflow
  guard never fires on the way (the console gets no overflow warning). When the texts of
  the chunks, one after the other, are the text of the whole sequence, the chunks give
  the frames that the whole sequence gives as one chunk, and they are the frames of the
  specification: carriage returns removed, split at line feeds, each terminated segment
  trimmed, empty results left out. The texts of the chunks are the text of the whole for
  every partition when all the bytes are ASCII (below \<^verbatim>\<open>80\<close>).
\<close>

theorem framing_chunk_independent_without_overflow:
  assumes "serialBuffer st = []"
    and "count_list (console (feed C (map toString chunks) st)) overflowWarning
          = count_list (console st) overflowWarning"
  shows "(concat (map toString chunks) = toString (concat chunks) \<longrightarrow>
            broadcasts (feed C (map toString chunks) st)
              = broadcasts (dataHandler C (toString (concat chunks)) st)
          \<and> broadcasts (feed C (map toString chunks) st)
              = broadcasts st @ spec_frames (toString (concat chunks)))
       \<and> ((\<forall>b \<in> set (concat chunks). b < 0x80) \<longrightarrow>
            concat (map toString chunks) = toString (concat chunks))"
  using assms feed_no_overflow [of st C "map toString chunks"]
    toString_concat_ascii [of chunks]
  by (simp add: dataHandler_broadcasts spec_frames_def)

text \<open>
  Witness for C1: the bytes \<^verbatim>\<open>41 C3 A9\<close> and \<^verbatim>\<open>42 0A\<close>, the second and third
  byte being one character. The chunks decode to the text of the whole, raise no overflow
  warning and give the one frame of three characters. The ASCII bytes \<^verbatim>\<open>41 42\<close> and
  \<^verbatim>\<open>43 0A\<close> decode to the text of the whole.
\<close>

theorem framing_chunk_independent_without_overflow_witness:
  "serialBuffer init = []
   \<and> count_list (console (feed exampleConstants
         (map toString [[0x41, 0xC3, 0xA9], [0x42, 0x0A]]) init)) overflowWarning
       = count_list (console init) overflowWarning
   \<and> concat (map toString [[0x41, 0xC3, 0xA9], [0x42, 0x0A]])
       = toString (concat [[0x41, 0xC3, 0xA9], [0x42, 0x0A]])
   \<and> broadcasts (feed exampleConstants (map toString [[0x41, 0xC3, 0xA9], [0x42, 0x0A]]) init)
       = [[0x41, 0xE9, 0x42]]
   \<and> count_list (console (feed exampleConstants
         (map toString [[0x41, 0x42], [0x43, 0x0A]]) init)) overflowWarning
       = count_list (console init) overflowWarning
   \<and> concat (map toString [[0x41, 0x42], [0x43, 0x0A]])
       = toString (concat [[0x41, 0x42], [0x43, 0x0A]])"
proof -
  have h1: "serialBuffer init = []"
    by (simp add: init_fields)
  have h2: "concat (map toString [[0x41, 0xC3, 0xA9], [0x42, 0x0A]])
      = toString (concat [[0x41, 0xC3, 0xA9], [0x42, 0x0A]])"
    by (simp add: toString_examples)
  have h3: "count_list (console (feed exampleConstants
         (map toString [[0x41, 0xC3, 0xA9], [0x42, 0x0A]]) init)) overflowWarning
       = count_list (console init) overflowWarning"
    by (simp add: toString_examples dataHandler_overflows dataHandler_buffer init_fields Let_def)
  have h4: "count_list (console (feed exampleConstants
         (map toString [[0x41, 0x42], [0x43, 0x0A]]) init)) overflowWarning
       = count_list (console init) overflowWarning"
    by (simp add: toString_ascii dataHandler_overflows dataHandler_buffer init_fields Let_def)
  have h5: "\<forall>b \<in> set (concat [[0x41, 0x42], [0x43, 0x0A :: 8 word]]). b < 0x80"
    by simp
  from framing_chunk_independent_without_overflow [OF h1 h3, THEN conjunct1, THEN mp, OF h2]
  have "broadcasts (feed exampleConstants (map toString [[0x41, 0xC3, 0xA9], [0x42, 0x0A]]) init)
      = broadcasts init @ spec_frames (toString (concat [[0x41, 0xC3, 0xA9], [0x42, 0x0A]]))"
    by (rule conjunct2)
  also have "\<dots> = [[0x41, 0xE9, 0x42]]"
    by (simp add: toString_examples init_fields spec_frames_def Let_def trim_def
          not_white_A not_white_more)
  finally show ?thesis
    using h1 h2 h3 h4
      framing_chunk_independent_without_overflow [OF h1 h4, THEN conjunct2, THEN mp, OF h5]
    by (intro conjI)
qed

text \<open>
  Counterexamples to C1 as stated (every byte sequence, every partition). First, 1025
  letters \<^verbatim>\<open>A\<close> and a line feed: as one chunk they are one frame of 1025 characters;
  as two chunks, the letters and then the line feed, the guard empties the buffer after
  the first chunk and nothing is broadcast. Second, the bytes \<^verbatim>\<open>41 C3 A9 0A\<close>, the
  line \<^verbatim>\<open>A\<close> and e acute: as one chunk the frame is these two characters; cut between
  \<^verbatim>\<open>C3\<close> and \<^verbatim>\<open>A9\<close>, each half of the character decodes to U+FFFD, and the
  frame has three characters, with no overflow warning.
\<close>

theorem framing_chunk_dependent_counterexample:
  "broadcasts (feed exampleConstants (map toString [replicate 1025 0x41, [0x0A]]) init) = []
   \<and> broadcasts (dataHandler exampleConstants
        (toString (concat [replicate 1025 0x41, [0x0A]])) init) = [replicate 1025 0x41]
   \<and> broadcasts (feed exampleConstants (map toString [[0x41, 0xC3], [0xA9, 0x0A]]) init)
       = [[0x41, 0xFFFD, 0xFFFD]]
   \<and> broadcasts (dataHandler exampleConstants
        (toString (concat [[0x41, 0xC3], [0xA9, 0x0A]])) init) = [[0x41, 0xE9]]
   \<and> console (feed exampleConstants (map toString [[0x41, 0xC3], [0xA9, 0x0A]]) init) = []"
proof -
  have whole: "toString (concat [replicate 1025 0x41, [0x0A]]) = replicate 1025 0x41 @ [LF]"
    using toString_ascii [of "replicate 1025 0x41 @ [0x0A]"] by simp
  have "broadcasts (feed exampleConstants (map toString [replicate 1025 0x41, [0x0A]]) init) = []"
    by (simp add: toString_long toString_examples ex1 dataHandler_broadcasts init_fields trim_def)
  moreover have "broadcasts (dataHandler exampleConstants
        (toString (concat [replicate 1025 0x41, [0x0A]])) init) = [replicate 1025 0x41]"
    unfolding whole
    using trim_long [where n = 1025 and xs = "[]"]
    by (simp add: dataHandler_broadcasts init_fields split_terminated)
  moreover have "broadcasts (feed exampleConstants (map toString [[0x41, 0xC3], [0xA9, 0x0A]]) init)
       = [[0x41, 0xFFFD, 0xFFFD]]"
    by (simp add: toString_examples dataHandler_broadcasts dataHandler_buffer init_fields Let_def
          trim_def not_white_A not_white_more)
  moreover have "broadcasts (dataHandler exampleConstants
        (toString (concat [[0x41, 0xC3], [0xA9, 0x0A]])) init) = [[0x41, 0xE9]]"
    by (simp add: toString_examples dataHandler_broadcasts init_fields Let_def
          trim_def not_white_A not_white_more)
  moreover have "console (feed exampleConstants (map toString [[0x41, 0xC3], [0xA9, 0x0A]]) init) = []"
    by (simp add: toString_examples dataHandler_eq init_fields Let_def exampleConstants_def)
  ultimately show ?thesis
    by (intro conjI)
qed

subsection \<open>C4: the overflow guard\<close>

text \<open>
  Claim C4, as amended. The residual is measured by the \<^verbatim>\<open>length\<close> of the buffer
  string (line 128), which counts UTF-16 code units, not bytes. In every call of the data
  listener, when the residual that frame extraction leaves (the text after the last line
  feed, carriage returns removed) is longer than 1024 code units, the buffer is empty
  afterwards, the console's last line is the overflow warning and it is the one warning
  added, the call broadcasts the frames of the terminated segments only, and whatever
  chunks follow, what is broadcast later is what the listener broadcasts for those chunks
  from the initial state: no frame ever holds discarded text.
\<close>

theorem overflow_discards_residual:
  assumes "1024 < length (last (split LF (filter (\<lambda>c. c \<noteq> CR) (serialBuffer st @ dat))))"
  shows "serialBuffer (dataHandler C dat st) = []
       \<and> last (console (dataHandler C dat st)) = overflowWarning
       \<and> count_list (console (dataHandler C dat st)) overflowWarning
           = Suc (count_list (console st) overflowWarning)
       \<and> broadcasts (dataHandler C dat st) =
           broadcasts st @ filter (\<lambda>l. l \<noteq> [])
             (map trim (butlast (split LF (filter (\<lambda>c. c \<noteq> CR) (serialBuffer st @ dat)))))
       \<and> drop (length (broadcasts (dataHandler C dat st)))
            (broadcasts (feed C chunks (dataHandler C dat st)))
           = broadcasts (feed C chunks init)"
proof -
  from assms have empty: "serialBuffer (dataHandler C dat st) = []"
    by (simp add: dataHandler_buffer)
  from assms have "last (console (dataHandler C dat st)) = overflowWarning"
    by (simp add: dataHandler_eq Let_def)
  moreover from assms have "count_list (console (dataHandler C dat st)) overflowWarning
      = Suc (count_list (console st) overflowWarning)"
    by (simp add: dataHandler_overflows)
  moreover have "drop (length (broadcasts (dataHandler C dat st)))
      (broadcasts (feed C chunks (dataHandler C dat st))) = broadcasts (feed C chunks init)"
    using feed_from_buffer [of "dataHandler C dat st" init C chunks] empty
    by (auto simp: init_fields)
  ultimately show ?thesis
    using empty by (simp add: dataHandler_broadcasts)
qed

text \<open>
  Witness for C4: 1025 letters \<^verbatim>\<open>A\<close> with no line feed are discarded with a warning;
  the chunk \<^verbatim>\<open>B\n\<close> after them gives the frame \<^verbatim>\<open>B\<close>.
\<close>

theorem overflow_discards_residual_witness:
  "1024 < length (last (split LF (filter (\<lambda>c. c \<noteq> CR) (serialBuffer init @ replicate 1025 0x41))))
   \<and> serialBuffer (dataHandler exampleConstants (replicate 1025 0x41) init) = []
   \<and> last (console (dataHandler exampleConstants (replicate 1025 0x41) init)) = overflowWarning
   \<and> broadcasts (dataHandler exampleConstants (replicate 1025 0x41) init) = []
   \<and> broadcasts (feed exampleConstants [[0x42, LF]]
        (dataHandler exampleConstants (replicate 1025 0x41) init)) = [[0x42]]"
proof -
  have h: "1024 < length (last (split LF (filter (\<lambda>c. c \<noteq> CR)
              (serialBuffer init @ replicate 1025 0x41))))"
    by (simp add: init_fields split_long)
  note r = overflow_discards_residual [OF h, of exampleConstants "[[0x42, LF]]"]
  note buf = r [THEN conjunct1]
  note warn = r [THEN conjunct2, THEN conjunct1]
  from r [THEN conjunct2, THEN conjunct2, THEN conjunct2, THEN conjunct1]
  have none: "broadcasts (dataHandler exampleConstants (replicate 1025 0x41) init) = []"
    by (simp add: init_fields split_long)
  from r [THEN conjunct2, THEN conjunct2, THEN conjunct2, THEN conjunct2]
  have "broadcasts (feed exampleConstants [[0x42, LF]]
         (dataHandler exampleConstants (replicate 1025 0x41) init))
      = broadcasts (feed exampleConstants [[0x42, LF]] init)"
    by (simp only: none list.size drop_0)
  also have "\<dots> = [[0x42]]"
    by (simp add: dataHandler_broadcasts init_fields trim_def not_white_A)
  finally show ?thesis
    using h buf warn none by (intro conjI)
qed

text \<open>
  Counterexample to C4 as stated (a residual of more than 1024 bytes is discarded): 600
  times the two bytes \<^verbatim>\<open>C3 A9\<close> of e acute, with no line feed. The residual is 1200
  bytes and 600 code units: the buffer keeps all of it and no warning is logged.
\<close>

theorem residual_over_1024_bytes_kept_counterexample:
  "length (concat (replicate 600 [0xC3, 0xA9 :: 8 word])) = 1200
   \<and> serialBuffer (dataHandler exampleConstants
        (toString (concat (replicate 600 [0xC3, 0xA9]))) init) = replicate 600 0xE9
   \<and> console (dataHandler exampleConstants
        (toString (concat (replicate 600 [0xC3, 0xA9]))) init) = []
   \<and> broadcasts (dataHandler exampleConstants
        (toString (concat (replicate 600 [0xC3, 0xA9]))) init) = []"
proof -
  have "length (concat (replicate n [0xC3, 0xA9 :: 8 word])) = 2 * n" for n
    by (induction n) simp_all
  then have "length (concat (replicate 600 [0xC3, 0xA9 :: 8 word])) = 1200"
    by simp
  moreover have "split LF (replicate 600 (0xE9 :: 16 word)) = [replicate 600 0xE9]"
    by (rule split_no_sep) simp
  ultimately show ?thesis
    by (simp add: toString_e_acute dataHandler_eq init_fields exampleConstants_def)
qed

subsection \<open>C9: the cap and long lines\<close>

text \<open>
  Claim C9, as amended. The cap applies to the residual only and is checked after frame
  extraction, in each call of the data listener. When the chunk holds the line feed of the
  line the buffer begins (the buffer has no line feed, and \<open>line\<close> is the chunk up to its
  first line feed), the call broadcasts the buffer followed by \<open>line\<close>, carriage returns
  removed and trimmed, whatever its length, then the other terminated segments of the
  chunk, and only the text after the chunk's last line feed is compared with 1024.
\<close>

theorem terminated_line_emitted_whole:
  assumes "LF \<notin> set (serialBuffer st)" and "LF \<notin> set line"
  shows "broadcasts (dataHandler C (line @ LF # rest) st) =
           broadcasts st @ filter (\<lambda>l. l \<noteq> [])
             (trim (filter (\<lambda>c. c \<noteq> CR) (serialBuffer st @ line))
              # map trim (butlast (split LF (filter (\<lambda>c. c \<noteq> CR) rest))))
       \<and> serialBuffer (dataHandler C (line @ LF # rest) st) =
           (let r = last (split LF (filter (\<lambda>c. c \<noteq> CR) rest))
            in if 1024 < length r then [] else r)"
proof -
  let ?l = "filter (\<lambda>c. c \<noteq> CR) (serialBuffer st @ line)"
  let ?m = "filter (\<lambda>c. c \<noteq> CR) rest"
  from assms have "LF \<notin> set ?l"
    by simp
  then have "split LF (?l @ LF # ?m) = ?l # split LF ?m"
    by (rule split_terminated)
  moreover have "filter (\<lambda>c. c \<noteq> CR) (serialBuffer st @ line @ LF # rest) = ?l @ LF # ?m"
    by simp
  ultimately have "split LF (filter (\<lambda>c. c \<noteq> CR) (serialBuffer st @ line @ LF # rest))
      = ?l # split LF ?m"
    by (simp only:)
  then show ?thesis
    by (simp add: dataHandler_broadcasts dataHandler_buffer Let_def)
qed

text \<open>
  Witness for C9: a line of 1025 letters and its line feed in one chunk is broadcast whole.
\<close>

theorem terminated_line_emitted_whole_witness:
  "LF \<notin> set (serialBuffer init) \<and> LF \<notin> set (replicate 1025 (0x41 :: 16 word))
   \<and> broadcasts (dataHandler exampleConstants (replicate 1025 0x41 @ LF # []) init)
       = [replicate 1025 0x41]
   \<and> serialBuffer (dataHandler exampleConstants (replicate 1025 0x41 @ LF # []) init) = []"
proof -
  have h1: "LF \<notin> set (serialBuffer init)"
    by (simp add: init_fields)
  have h2: "LF \<notin> set (replicate 1025 (0x41 :: 16 word))"
    by simp
  note r = terminated_line_emitted_whole [OF h1 h2, of exampleConstants "[]"]
  from r trim_long [where n = 1025 and xs = "[]"]
  have "broadcasts (dataHandler exampleConstants (replicate 1025 0x41 @ LF # []) init)
       = [replicate 1025 0x41]"
    by (simp add: init_fields)
  moreover from r
  have "serialBuffer (dataHandler exampleConstants (replicate 1025 0x41 @ LF # []) init) = []"
    by simp
  ultimately show ?thesis
    using h1 h2 by (intro conjI)
qed

text \<open>
  Counterexample to C9 as stated (a line whose terminator is observed is never truncated
  by the guard): 1025 letters \<^verbatim>\<open>A\<close> in one chunk, then \<^verbatim>\<open>B\n\<close>. The text holds
  one terminated line of 1026 characters, and the frame broadcast is \<^verbatim>\<open>B\<close> alone.
\<close>

theorem long_line_truncated_counterexample:
  "spec_frames (concat [replicate 1025 0x41, [0x42, LF]]) = [replicate 1025 0x41 @ [0x42]]
   \<and> broadcasts (feed exampleConstants [replicate 1025 0x41, [0x42, LF]] init) = [[0x42]]"
proof -
  have "spec_frames (concat [replicate 1025 0x41, [0x42, LF]]) = [replicate 1025 0x41 @ [0x42]]"
    using trim_long [where n = 1025 and xs = "[0x42]"]
      split_terminated [of LF "replicate 1025 0x41 @ [0x42]" "[]"]
    by (simp add: spec_frames_def)
  moreover have "broadcasts (feed exampleConstants [replicate 1025 0x41, [0x42, LF]] init) = [[0x42]]"
    by (simp add: ex1 dataHandler_broadcasts init_fields trim_def not_white_A)
  ultimately show ?thesis by simp
qed

subsection \<open>Closed forms of the handlers\<close>

lemma wssClients_update [simp]:
  "wssClients (serial_update g0 st) = wssClients st"
  "wssClients (serialConnected_update g1 st) = wssClients st"
  "wssClients (pollTimer_update g2 st) = wssClients st"
  "wssClients (serialBuffer_update g3 st) = wssClients st"
  "wssClients (ports_update g4 st) = wssClients st"
  "wssClients (pendingOpens_update g5 st) = wssClients st"
  "wssClients (timeouts_update g6 st) = wssClients st"
  "wssClients (intervals_update g7 st) = wssClients st"
  "wssClients (nextTimer_update g8 st) = wssClients st"
  "wssClients (nextClient_update g9 st) = wssClients st"
  "wssClients (servers_update g10 st) = wssClients st"
  "wssClients (written_update g11 st) = wssClients st"
  "wssClients (console_update g12 st) = wssClients st"
  "wssClients (broadcasts_update g13 st) = wssClients st"
  "wssClients (sent_update g14 st) = wssClients st"
  "wssClients (delivered_update g15 st) = wssClients st"
  "wssClients (exited_update g16 st) = wssClients st"
  by (simp_all add: wssClients_def)

lemma recipients_wssClients:
  "recipients sender st = filter (\<lambda>c. Some (cid c) \<noteq> sender \<and> readyState c = OPEN) (wssClients st)"
  by (simp add: recipients_def)

lemma stopPolling_eq:
  "stopPolling st =
     st\<lparr>intervals := (case pollTimer st of None \<Rightarrow> intervals st
                       | Some h \<Rightarrow> filter (\<lambda>t. fst t \<noteq> h) (intervals st)),
        pollTimer := None\<rparr>"
  by (simp add: stopPolling_def clearInterval_def split: option.splits)

lemma startPolling_eq:
  "startPolling C st =
     st\<lparr>pollTimer := Some (nextTimer st),
        intervals := (case pollTimer st of None \<Rightarrow> intervals st
                       | Some h \<Rightarrow> filter (\<lambda>t. fst t \<noteq> h) (intervals st))
                     @ [(nextTimer st, POLL_INTERVAL C)],
        nextTimer := Suc (nextTimer st)\<rparr>"
  by (simp add: startPolling_def clearInterval_def split: option.splits)

lemma errorHandler_eq:
  "errorHandler m st =
     st\<lparr>console := console st @ [ConsoleError (lit ''Serial port error: '' @ m),
                     ConsoleLog (lit ''Reconnecting to serial port in 5 seconds...'')],
        serialConnected := False,
        intervals := (case pollTimer st of None \<Rightarrow> intervals st
                       | Some h \<Rightarrow> filter (\<lambda>t. fst t \<noteq> h) (intervals st)),
        pollTimer := None,
        broadcasts := broadcasts st @ [lit ''[STATUS] Serial error: '' @ m],
        sent := sent st @ map (\<lambda>c. (cid c, lit ''[STATUS] Serial error: '' @ m))
                  (recipients None st),
        delivered := delivered st @ map (\<lambda>c. (cid c, lit ''[STATUS] Serial error: '' @ m))
                  (filter (\<lambda>c. \<not> sendFails c) (recipients None st)),
        timeouts := timeouts st @ [5000]\<rparr>"
  by (simp add: errorHandler_def stopPolling_eq broadcastToClients_eq console_out_def
        setTimeout_def recipients_wssClients Let_def split: option.splits)

lemma closeHandler_eq:
  "closeHandler st =
     st\<lparr>console := console st
          @ [ConsoleWarn (lit ''Serial port closed. Retrying connection in 5 seconds...'')],
        serialConnected := False,
        intervals := (case pollTimer st of None \<Rightarrow> intervals st
                       | Some h \<Rightarrow> filter (\<lambda>t. fst t \<noteq> h) (intervals st)),
        pollTimer := None,
        broadcasts := broadcasts st @ [lit ''[STATUS] Serial disconnected''],
        sent := sent st @ map (\<lambda>c. (cid c, lit ''[STATUS] Serial disconnected''))
                  (recipients None st),
        delivered := delivered st @ map (\<lambda>c. (cid c, lit ''[STATUS] Serial disconnected''))
                  (filter (\<lambda>c. \<not> sendFails c) (recipients None st)),
        timeouts := timeouts st @ [5000]\<rparr>"
  by (simp add: closeHandler_def stopPolling_eq broadcastToClients_eq console_out_def
        setTimeout_def recipients_wssClients Let_def split: option.splits)

lemma openCallback_fail_eq:
  "openCallback C (Some m) st =
     st\<lparr>console := console st
          @ [ConsoleError (lit ''Failed to open '' @ SERIAL_PORT C @ lit '': '' @ m),
             ConsoleLog (lit ''Retrying in 5 seconds...'' @ [LF])],
        timeouts := timeouts st @ [5000]\<rparr>"
  by (simp add: openCallback_def console_out_def setTimeout_def Let_def)

lemma startWebSocketServer_eq:
  "startWebSocketServer C st =
     (case wss st of
        Some srv \<Rightarrow> st
      | None \<Rightarrow> st\<lparr>wss := Some \<lparr>clients = []\<rparr>, servers := Suc (servers st),
                    console := console st
                      @ [ConsoleLog (lit ''WebSocket Server started on port '' @ WS_PORT C)]\<rparr>)"
  by (simp add: startWebSocketServer_def console_out_def split: option.splits)

lemma wssClients_startWebSocketServer [simp]:
  "wssClients (startWebSocketServer C st) = wssClients st"
  by (simp add: startWebSocketServer_eq wssClients_def split: option.splits)

lemma startWebSocketServer_fields [simp]:
  "serial (startWebSocketServer C st) = serial st"
  "serialConnected (startWebSocketServer C st) = serialConnected st"
  "pollTimer (startWebSocketServer C st) = pollTimer st"
  "serialBuffer (startWebSocketServer C st) = serialBuffer st"
  "ports (startWebSocketServer C st) = ports st"
  "pendingOpens (startWebSocketServer C st) = pendingOpens st"
  "timeouts (startWebSocketServer C st) = timeouts st"
  "intervals (startWebSocketServer C st) = intervals st"
  "nextTimer (startWebSocketServer C st) = nextTimer st"
  "nextClient (startWebSocketServer C st) = nextClient st"
  "written (startWebSocketServer C st) = written st"
  "broadcasts (startWebSocketServer C st) = broadcasts st"
  "sent (startWebSocketServer C st) = sent st"
  "delivered (startWebSocketServer C st) = delivered st"
  "exited (startWebSocketServer C st) = exited st"
  by (simp_all add: startWebSocketServer_eq split: option.splits)

lemma openCallback_ok_parts:
  "openCallback C None st =
     startPolling C (setupSerialHandlers (broadcastToClients (lit ''[STATUS] Serial connected'') None
       (startWebSocketServer C (console_out (ConsoleLog (lit ''Serial port '' @ SERIAL_PORT C
                       @ lit '' opened successfully at '' @ SERIAL_BAUDRATE C
                       @ lit '' 8N1'' @ [LF])) (st\<lparr>serialConnected := True\<rparr>)))))"
  by (simp add: openCallback_def Let_def)

lemma funpow_invariant: "(\<And>s. P s \<Longrightarrow> P (f s)) \<Longrightarrow> P s \<Longrightarrow> P ((f ^^ n) s)"
  by (induction n) auto

lemma run_invariant:
  "(\<And>e s. P s \<Longrightarrow> P (step C e s)) \<Longrightarrow> P st \<Longrightarrow> P (run C evs st)"
  by (induction evs arbitrary: st) auto

lemma run_exited: "exited st \<Longrightarrow> run C es st = st"
  by (cases es) simp_all

lemma run_append: "run C (es @ es') st = run C es' (run C es st)"
  by (induction es arbitrary: st) (auto simp: run_exited)

lemma run_snoc:
  "run C (es @ [e]) st =
     (if exited (run C es st) then run C es st else step C e (run C es st))"
  by (simp add: run_append)

lemma run_alive:
  "\<not> exited (run C es st) \<Longrightarrow> run C (es @ [e]) st = step C e (run C es st)"
  by (simp add: run_snoc)

lemma run_alive2:
  "\<not> exited (run C es st) \<Longrightarrow> \<not> exited (step C e (run C es st)) \<Longrightarrow>
     run C (es @ [e, e']) st = step C e' (step C e (run C es st))"
  using run_append [of C es "[e, e']" st] by simp

lemma updateClient_eq:
  "updateClient k f st =
     st\<lparr>wss := map_option
        (\<lambda>srv. srv\<lparr>clients := map (\<lambda>c. if cid c = k then f c else c) (clients srv)\<rparr>) (wss st)\<rparr>"
  by (simp add: updateClient_def split: option.splits)

lemma wssClients_updateClient:
  "wssClients (updateClient k f st) = map (\<lambda>c. if cid c = k then f c else c) (wssClients st)"
  by (simp add: updateClient_def wssClients_def split: option.splits)

lemma wssClients_accept:
  "wss st \<noteq> None \<Longrightarrow>
   wssClients (accept k tok fails st) = wssClients st @
     [\<lparr>cid = k, token = tok, ip = None, readyState = OPEN,
       messageListener = False, closeListener = False, sendFails = fails\<rparr>]"
  by (auto simp: accept_def wssClients_def)

lemma nextClient_accept [simp]:
  "wss st \<noteq> None \<Longrightarrow> nextClient (accept k tok fails st) = Suc k"
  by (auto simp: accept_def)

lemma accept_fields [simp]:
  "serial (accept k tok fails st) = serial st"
  "serialConnected (accept k tok fails st) = serialConnected st"
  "pollTimer (accept k tok fails st) = pollTimer st"
  "serialBuffer (accept k tok fails st) = serialBuffer st"
  "ports (accept k tok fails st) = ports st"
  "pendingOpens (accept k tok fails st) = pendingOpens st"
  "timeouts (accept k tok fails st) = timeouts st"
  "intervals (accept k tok fails st) = intervals st"
  "nextTimer (accept k tok fails st) = nextTimer st"
  "servers (accept k tok fails st) = servers st"
  "written (accept k tok fails st) = written st"
  "console (accept k tok fails st) = console st"
  "broadcasts (accept k tok fails st) = broadcasts st"
  "sent (accept k tok fails st) = sent st"
  "delivered (accept k tok fails st) = delivered st"
  "exited (accept k tok fails st) = exited st"
  by (simp_all add: accept_def split: option.splits)

lemma wssClients_dropClient:
  "wssClients (dropClient k st) = filter (\<lambda>c. cid c \<noteq> k) (wssClients st)"
  by (simp add: dropClient_def wssClients_def split: option.splits)

lemma dropClient_fields [simp]:
  "serial (dropClient k st) = serial st"
  "serialConnected (dropClient k st) = serialConnected st"
  "pollTimer (dropClient k st) = pollTimer st"
  "serialBuffer (dropClient k st) = serialBuffer st"
  "ports (dropClient k st) = ports st"
  "pendingOpens (dropClient k st) = pendingOpens st"
  "timeouts (dropClient k st) = timeouts st"
  "intervals (dropClient k st) = intervals st"
  "nextTimer (dropClient k st) = nextTimer st"
  "nextClient (dropClient k st) = nextClient st"
  "servers (dropClient k st) = servers st"
  "written (dropClient k st) = written st"
  "console (dropClient k st) = console st"
  "broadcasts (dropClient k st) = broadcasts st"
  "sent (dropClient k st) = sent st"
  "delivered (dropClient k st) = delivered st"
  "exited (dropClient k st) = exited st"
  by (simp_all add: dropClient_def split: option.splits)

lemma fold_wsCloseHandler:
  "fold (\<lambda>c s. if closeListener c then wsCloseHandler C (ip c) s else s) cs st =
     st\<lparr>console := console st @ (if DEBUG C
        then map (\<lambda>c. ConsoleLog (lit ''WebSocket client from '' @ template (ip c)
                    @ lit '' disconnected'')) (filter closeListener cs)
        else [])\<rparr>"
  by (induction cs arbitrary: st) (simp_all add: wsCloseHandler_def debugLog_def console_out_def)

lemma updateClient_twice:
  "updateClient k f (updateClient k g st) = updateClient k (\<lambda>c. f (g c)) st"
  if "\<And>c. cid (g c) = cid c"
proof -
  have "(\<lambda>c. if cid (if cid c = k then g c else c) = k
             then f (if cid c = k then g c else c)
             else (if cid c = k then g c else c))
      = (\<lambda>c. if cid c = k then f (g c) else c)"
    using that by (auto simp: fun_eq_iff)
  then show ?thesis
    by (simp add: updateClient_eq option.map_comp comp_def)
qed

lemma updateClient_fields [simp]:
  "serial (updateClient k f st) = serial st"
  "serialConnected (updateClient k f st) = serialConnected st"
  "pollTimer (updateClient k f st) = pollTimer st"
  "serialBuffer (updateClient k f st) = serialBuffer st"
  "ports (updateClient k f st) = ports st"
  "pendingOpens (updateClient k f st) = pendingOpens st"
  "timeouts (updateClient k f st) = timeouts st"
  "intervals (updateClient k f st) = intervals st"
  "nextTimer (updateClient k f st) = nextTimer st"
  "nextClient (updateClient k f st) = nextClient st"
  "servers (updateClient k f st) = servers st"
  "written (updateClient k f st) = written st"
  "console (updateClient k f st) = console st"
  "broadcasts (updateClient k f st) = broadcasts st"
  "sent (updateClient k f st) = sent st"
  "delivered (updateClient k f st) = delivered st"
  "exited (updateClient k f st) = exited st"
  by (simp_all add: updateClient_eq)

lemma updateClient_commute [simp]:
  "updateClient k f (console_update g st) = console_update g (updateClient k f st)"
  "updateClient k f (written_update h st) = written_update h (updateClient k f st)"
  by (simp_all add: updateClient_eq)

lemma wssClients_uncaughtException:
  "wssClients (uncaughtException st) = map (\<lambda>c. c\<lparr>readyState := CLOSED\<rparr>) (wssClients st)"
  by (simp add: uncaughtException_def wssClients_def split: option.splits)

lemma uncaughtException_fields [simp]:
  "serial (uncaughtException st) = serial st"
  "serialConnected (uncaughtException st) = serialConnected st"
  "pollTimer (uncaughtException st) = pollTimer st"
  "serialBuffer (uncaughtException st) = serialBuffer st"
  "ports (uncaughtException st) = ports st"
  "pendingOpens (uncaughtException st) = pendingOpens st"
  "timeouts (uncaughtException st) = timeouts st"
  "intervals (uncaughtException st) = intervals st"
  "nextTimer (uncaughtException st) = nextTimer st"
  "nextClient (uncaughtException st) = nextClient st"
  "servers (uncaughtException st) = servers st"
  "written (uncaughtException st) = written st"
  "console (uncaughtException st) = console st"
  "broadcasts (uncaughtException st) = broadcasts st"
  "sent (uncaughtException st) = sent st"
  "delivered (uncaughtException st) = delivered st"
  "exited (uncaughtException st) = True"
  "wss (uncaughtException st) = None \<longleftrightarrow> wss st = None"
  by (simp_all add: uncaughtException_def)

lemma connectionHandler_eq:
  "connectionHandler C k addr url st =
     (case url of
        InvalidURL \<Rightarrow>
          uncaughtException
            ((updateClient k (\<lambda>c. c\<lparr>ip := requestIp addr\<rparr>) st)
               \<lparr>console := console st
                  @ [ConsoleLog (lit ''WebSocket client connected from IP: ''
                       @ template (requestIp addr))]\<rparr>)
      | URL tok \<Rightarrow>
          if tokenValue tok \<noteq> AUTH_TOKEN C
          then (updateClient k (\<lambda>c. ws_close (c\<lparr>ip := requestIp addr\<rparr>)) st)
                 \<lparr>console := console st
                    @ [ConsoleLog (lit ''WebSocket client connected from IP: ''
                         @ template (requestIp addr)),
                       ConsoleLog (lit ''Invalid token from IP: '' @ template (requestIp addr))]\<rparr>
          else (updateClient k
                  (\<lambda>c. c\<lparr>ip := requestIp addr, messageListener := True, closeListener := True\<rparr>) st)
                 \<lparr>console := console st
                    @ [ConsoleLog (lit ''WebSocket client connected from IP: ''
                         @ template (requestIp addr))],
                  written := written st
                    @ (if serialConnected st then [(serial st, lit ''=R'' @ [CR, LF])] else [])\<rparr>)"
proof -
  have ip: "(case addr of None \<Rightarrow> None
             | Some a \<Rightarrow> if a \<noteq> [] \<and> take 7 a = lit ''::ffff:'' then Some (drop 7 a) else Some a)
            = requestIp addr"
    by (simp add: requestIp_def)
  show ?thesis
    unfolding connectionHandler_def ip
    by (simp add: Let_def console_out_def serial_write_def updateClient_twice
          split: urlResult.splits)
qed

subsection \<open>Invariants\<close>

lemma authInv_uncaughtException: "authInv C st \<Longrightarrow> authInv C (uncaughtException st)"
  by (auto simp: authInv_def wssClients_uncaughtException authenticated_def)


lemma authInv_sends:
  assumes "authInv C st" and "wssClients st' = wssClients st" and "nextClient st' = nextClient st"
    and "fst ` set (sent st') \<subseteq> fst ` set (sent st) \<union> cid ` set (recipients None st)"
  shows "authInv C st'"
  using assms unfolding authInv_def recipients_def by (auto 0 3 simp: image_subset_iff)


lemma sends_errorHandler:
  "wssClients (errorHandler m st) = wssClients st"
  "nextClient (errorHandler m st) = nextClient st"
  "fst ` set (sent (errorHandler m st)) \<subseteq> fst ` set (sent st) \<union> cid ` set (recipients None st)"
  by (auto simp: errorHandler_eq)

lemma sends_closeHandler:
  "wssClients (closeHandler st) = wssClients st"
  "nextClient (closeHandler st) = nextClient st"
  "fst ` set (sent (closeHandler st)) \<subseteq> fst ` set (sent st) \<union> cid ` set (recipients None st)"
  by (auto simp: closeHandler_eq)

lemma sends_dataHandler:
  "wssClients (dataHandler C dat st) = wssClients st"
  "nextClient (dataHandler C dat st) = nextClient st"
  "fst ` set (sent (dataHandler C dat st)) \<subseteq> fst ` set (sent st) \<union> cid ` set (recipients None st)"
  by (auto simp: dataHandler_eq Let_def)

lemma sends_openCallback:
  "wssClients (openCallback C err st) = wssClients st"
  "nextClient (openCallback C err st) = nextClient st"
  "fst ` set (sent (openCallback C err st)) \<subseteq> fst ` set (sent st) \<union> cid ` set (recipients None st)"
  by (cases err;
      auto simp: openCallback_ok_parts openCallback_fail_eq startPolling_eq setupSerialHandlers_def
        broadcastToClients_eq console_out_def recipients_def split: option.splits)+

lemma sends_quiet:
  "wssClients (pollTick st) = wssClients st"
  "nextClient (pollTick st) = nextClient st"
  "sent (pollTick st) = sent st"
  "wssClients (initSerialPort C st) = wssClients st"
  "nextClient (initSerialPort C st) = nextClient st"
  "sent (initSerialPort C st) = sent st"
  "wssClients (writeCallback err st) = wssClients st"
  "nextClient (writeCallback err st) = nextClient st"
  "sent (writeCallback err st) = sent st"
  "wssClients (messageHandler m st) = wssClients st"
  "nextClient (messageHandler m st) = nextClient st"
  "sent (messageHandler m st) = sent st"
  by (simp_all add: pollTick_def initSerialPort_def writeCallback_def messageHandler_def
        serial_write_def console_out_def Let_def split: option.splits)

lemma authInv_step: "authInv C st \<Longrightarrow> authInv C (step C e st)"
proof (cases e)
  case (OpenResult err)
  assume "authInv C st"
  then have "authInv C (st\<lparr>pendingOpens := pendingOpens st - 1\<rparr>)"
    by (simp add: authInv_def)
  then have "authInv C (openCallback C err (st\<lparr>pendingOpens := pendingOpens st - 1\<rparr>))"
    by (rule authInv_sends) ((rule sends_openCallback)+)
  with \<open>authInv C st\<close> show ?thesis
    by (simp add: OpenResult step_def)
next
  case (SerialError p m)
  assume inv: "authInv C st"
  then have "authInv C ((errorHandler m ^^ listeners p st) st)"
    by (rule funpow_invariant [rotated]) (erule authInv_sends, (rule sends_errorHandler)+)
  with inv show ?thesis
    by (simp add: SerialError step_def authInv_uncaughtException)
next
  case (SerialClose p)
  assume "authInv C st"
  then have "authInv C ((closeHandler ^^ listeners p st) st)"
    by (rule funpow_invariant [rotated]) (erule authInv_sends, (rule sends_closeHandler)+)
  then show ?thesis
    by (simp add: SerialClose step_def)
next
  case (SerialData p dat)
  assume "authInv C st"
  then have "authInv C ((dataHandler C (toString dat) ^^ listeners p st) st)"
    by (rule funpow_invariant [rotated]) (erule authInv_sends, (rule sends_dataHandler)+)
  then show ?thesis
    by (simp add: SerialData step_def)
next
  case (IntervalTick h)
  assume "authInv C st"
  then show ?thesis
    by (simp add: IntervalTick step_def authInv_def sends_quiet)
next
  case (TimeoutFires i)
  assume "authInv C st"
  then show ?thesis
    by (simp add: TimeoutFires step_def authInv_def sends_quiet)
next
  case (WriteResult err)
  assume "authInv C st"
  then show ?thesis
    by (simp add: WriteResult step_def authInv_def sends_quiet)
next
  case (WsConnection addr url fails)
  assume "authInv C st"
  then show ?thesis
    by (cases url)
       (auto simp: WsConnection step_def authInv_def connectionHandler_eq wssClients_updateClient
          wssClients_accept wssClients_uncaughtException ws_close_def authenticated_def
          less_Suc_eq)
next
  case (WsMessage k m)
  assume "authInv C st"
  then show ?thesis
    by (simp add: WsMessage step_def authInv_def sends_quiet)
next
  case (WsClosed k)
  assume "authInv C st"
  then show ?thesis
    by (simp add: WsClosed step_def authInv_def fold_wsCloseHandler wssClients_dropClient)
qed


lemma wss_None_updateClient [simp]: "wss (updateClient k f st) = None \<longleftrightarrow> wss st = None"
  by (simp add: updateClient_eq)

lemma wss_None_accept [simp]: "wss (accept k tok fails st) = None \<longleftrightarrow> wss st = None"
  by (simp add: accept_def split: option.splits)

lemma wss_None_dropClient [simp]: "wss (dropClient k st) = None \<longleftrightarrow> wss st = None"
  by (simp add: dropClient_def split: option.splits)

lemma sole_interval_cleared: "map fst ts = [h] \<Longrightarrow> filter (\<lambda>t. fst t \<noteq> h) ts = []"
  by (cases ts) auto

lemma timerInv_step: "timerInv st \<Longrightarrow> timerInv (step C e st)"
proof (cases e)
  case (OpenResult err)
  assume "timerInv st"
  then show ?thesis
    by (cases err)
       (auto simp: OpenResult step_def timerInv_def openCallback_ok_parts openCallback_fail_eq
          startPolling_eq setupSerialHandlers_def broadcastToClients_eq console_out_def
          sole_interval_cleared split: option.splits)
next
  case (SerialError p m)
  assume inv: "timerInv st"
  then have "timerInv ((errorHandler m ^^ listeners p st) st)"
    by (rule funpow_invariant [rotated])
       (auto simp: timerInv_def errorHandler_eq sole_interval_cleared split: option.splits)
  moreover from inv have "timerInv (uncaughtException st)"
    by (simp add: timerInv_def)
  ultimately show ?thesis
    by (simp add: SerialError step_def)
next
  case (SerialClose p)
  assume "timerInv st"
  then have "timerInv ((closeHandler ^^ listeners p st) st)"
    by (rule funpow_invariant [rotated])
       (auto simp: timerInv_def closeHandler_eq sole_interval_cleared split: option.splits)
  then show ?thesis
    by (simp add: SerialClose step_def)
next
  case (SerialData p dat)
  assume "timerInv st"
  then have "timerInv ((dataHandler C (toString dat) ^^ listeners p st) st)"
    by (rule funpow_invariant [rotated]) (simp add: timerInv_def dataHandler_eq Let_def)
  then show ?thesis
    by (simp add: SerialData step_def)
next
  case (WsConnection addr url fails)
  assume "timerInv st"
  then show ?thesis
    by (cases url) (simp_all add: WsConnection step_def timerInv_def connectionHandler_eq)
next
  case (WsClosed k)
  assume "timerInv st"
  then show ?thesis
    by (simp add: WsClosed step_def timerInv_def fold_wsCloseHandler)
qed (simp_all add: step_def timerInv_def pollTick_def initSerialPort_def writeCallback_def
       messageHandler_def serial_write_def console_out_def Let_def split: option.splits)

lemma serverInv_startWebSocketServer:
  "serverInv st \<Longrightarrow> serverInv (startWebSocketServer C st)"
  by (simp add: serverInv_def startWebSocketServer_eq split: option.splits)

lemma serverInv_step: "serverInv st \<Longrightarrow> serverInv (step C e st)"
proof (cases e)
  case (OpenResult err)
  assume inv: "serverInv st"
  show ?thesis
  proof (cases err)
    case None
    let ?s = "console_out (ConsoleLog (lit ''Serial port '' @ SERIAL_PORT C
                @ lit '' opened successfully at '' @ SERIAL_BAUDRATE C @ lit '' 8N1'' @ [LF]))
              (st\<lparr>pendingOpens := pendingOpens st - 1, serialConnected := True\<rparr>)"
    from inv have "serverInv ?s"
      by (simp add: serverInv_def console_out_def)
    then have "serverInv (startWebSocketServer C ?s)"
      by (rule serverInv_startWebSocketServer)
    then have "serverInv (openCallback C None (st\<lparr>pendingOpens := pendingOpens st - 1\<rparr>))"
      by (simp add: openCallback_ok_parts serverInv_def startPolling_eq setupSerialHandlers_def
            broadcastToClients_eq split: option.splits)
    with inv show ?thesis
      by (simp add: OpenResult None step_def)
  next
    case (Some m)
    with inv show ?thesis
      by (simp add: OpenResult step_def serverInv_def openCallback_fail_eq)
  qed
next
  case (SerialError p m)
  assume inv: "serverInv st"
  then have "serverInv ((errorHandler m ^^ listeners p st) st)"
    by (rule funpow_invariant [rotated]) (simp add: serverInv_def errorHandler_eq)
  moreover from inv have "serverInv (uncaughtException st)"
    by (simp add: serverInv_def)
  ultimately show ?thesis
    by (simp add: SerialError step_def)
next
  case (SerialClose p)
  assume "serverInv st"
  then have "serverInv ((closeHandler ^^ listeners p st) st)"
    by (rule funpow_invariant [rotated]) (simp add: serverInv_def closeHandler_eq)
  then show ?thesis
    by (simp add: SerialClose step_def)
next
  case (SerialData p dat)
  assume "serverInv st"
  then have "serverInv ((dataHandler C (toString dat) ^^ listeners p st) st)"
    by (rule funpow_invariant [rotated]) (simp add: serverInv_def dataHandler_eq Let_def)
  then show ?thesis
    by (simp add: SerialData step_def)
next
  case (WsConnection addr url fails)
  assume "serverInv st"
  then show ?thesis
    by (cases url) (simp_all add: WsConnection step_def serverInv_def connectionHandler_eq)
next
  case (WsClosed k)
  assume "serverInv st"
  then show ?thesis
    by (simp add: WsClosed step_def serverInv_def fold_wsCloseHandler)
qed (simp_all add: step_def serverInv_def pollTick_def initSerialPort_def writeCallback_def
       messageHandler_def serial_write_def console_out_def Let_def split: option.splits)

lemma disconnected_step:
  assumes "\<not> serialConnected st" and "e \<noteq> OpenResult None"
  shows "\<not> serialConnected (step C e st) \<and> written (step C e st) = written st"
proof (cases e)
  case (OpenResult err)
  with assms show ?thesis
    by (cases err) (simp_all add: step_def openCallback_fail_eq)
next
  case (SerialError p m)
  have "\<not> serialConnected ((errorHandler m ^^ n) st) \<and> written ((errorHandler m ^^ n) st) = written st" for n
    using assms(1) by (induction n) (simp_all add: errorHandler_eq)
  with assms(1) show ?thesis
    by (simp add: SerialError step_def)
next
  case (SerialClose p)
  have "\<not> serialConnected ((closeHandler ^^ n) st) \<and> written ((closeHandler ^^ n) st) = written st" for n
    using assms(1) by (induction n) (simp_all add: closeHandler_eq)
  then show ?thesis
    by (simp add: SerialClose step_def)
next
  case (SerialData p dat)
  have "\<not> serialConnected ((dataHandler C (toString dat) ^^ n) st)
      \<and> written ((dataHandler C (toString dat) ^^ n) st) = written st" for n
    using assms(1) by (induction n) (simp_all add: dataHandler_eq Let_def)
  then show ?thesis
    by (simp add: SerialData step_def)
next
  case (WsConnection addr url fails)
  with assms show ?thesis
    by (cases url) (simp_all add: step_def connectionHandler_eq)
next
  case (WsClosed k)
  with assms show ?thesis
    by (simp add: step_def fold_wsCloseHandler)
qed (use assms in \<open>simp_all add: step_def pollTick_def initSerialPort_def writeCallback_def
       messageHandler_def serial_write_def console_out_def Let_def split: option.splits\<close>)

subsection \<open>The console is write-only\<close>

lemma consoleBlind_same:
  assumes h: "consoleBlind h" and ab: "sameButConsole a b"
  shows "sameButConsole (h a) (h b)"
proof -
  have "(h a)\<lparr>console := []\<rparr> = (h (a\<lparr>console := []\<rparr>))\<lparr>console := []\<rparr>"
    using h [unfolded consoleBlind_def, rule_format, of "console a" "a\<lparr>console := []\<rparr>"] by simp
  moreover have "(h b)\<lparr>console := []\<rparr> = (h (b\<lparr>console := []\<rparr>))\<lparr>console := []\<rparr>"
    using h [unfolded consoleBlind_def, rule_format, of "console b" "b\<lparr>console := []\<rparr>"] by simp
  ultimately show ?thesis
    using ab by (simp add: sameButConsole_def)
qed

lemma consoleBlind_comp:
  assumes "consoleBlind f" and "consoleBlind g"
  shows "consoleBlind (\<lambda>s. g (f s))"
proof -
  have "sameButConsole (g (f (s\<lparr>console := cs\<rparr>))) (g (f s))" for s cs
  proof (rule consoleBlind_same [OF assms(2)])
    show "sameButConsole (f (s\<lparr>console := cs\<rparr>)) (f s)"
      by (rule consoleBlind_same [OF assms(1)]) (simp add: sameButConsole_def)
  qed
  then show ?thesis
    by (simp add: consoleBlind_def sameButConsole_def)
qed

lemma consoleBlind_funpow: "consoleBlind h \<Longrightarrow> consoleBlind (h ^^ n)"
proof (induction n)
  case 0
  show ?case by (simp add: consoleBlind_def)
next
  case (Suc n)
  then have "consoleBlind (\<lambda>s. h ((h ^^ n) s))"
    using consoleBlind_comp [of "h ^^ n" h] by simp
  then show ?case
    by (simp add: comp_def)
qed

lemma consoleBlind_errorHandler: "consoleBlind (errorHandler m)"
  unfolding consoleBlind_def
  by (intro allI state.equality) (simp_all add: errorHandler_eq cong: option.case_cong)

lemma consoleBlind_closeHandler: "consoleBlind closeHandler"
  unfolding consoleBlind_def
  by (intro allI state.equality) (simp_all add: closeHandler_eq cong: option.case_cong)

lemma consoleBlind_dataHandler: "consoleBlind (dataHandler C dat)"
  unfolding consoleBlind_def
  by (intro allI state.equality) (simp_all add: dataHandler_eq Let_def)

lemma consoleBlind_parts:
  "consoleBlind (\<lambda>s. s\<lparr>serialConnected := True\<rparr>)"
  "consoleBlind (console_out l)"
  "consoleBlind (startWebSocketServer C)"
  "consoleBlind (broadcastToClients m sender)"
  "consoleBlind setupSerialHandlers"
  "consoleBlind (startPolling C)"
  unfolding consoleBlind_def
  by (intro allI state.equality;
      simp add: console_out_def startWebSocketServer_eq broadcastToClients_eq
        setupSerialHandlers_def startPolling_eq cong: option.case_cong split: option.splits)+

lemma consoleBlind_openCallback: "consoleBlind (openCallback C err)"
proof (cases err)
  case None
  have "openCallback C None =
      (\<lambda>s. startPolling C (setupSerialHandlers
         (broadcastToClients (lit ''[STATUS] Serial connected'') None
           (startWebSocketServer C (console_out (ConsoleLog (lit ''Serial port '' @ SERIAL_PORT C
              @ lit '' opened successfully at '' @ SERIAL_BAUDRATE C @ lit '' 8N1'' @ [LF]))
              (s\<lparr>serialConnected := True\<rparr>))))))"
    by (simp add: fun_eq_iff openCallback_ok_parts)
  moreover note consoleBlind_comp [OF consoleBlind_comp [OF consoleBlind_comp [OF consoleBlind_comp
    [OF consoleBlind_comp [OF consoleBlind_parts(1) consoleBlind_parts(2)] consoleBlind_parts(3)]
    consoleBlind_parts(4)] consoleBlind_parts(5)] consoleBlind_parts(6)]
  ultimately show ?thesis
    unfolding None by simp
next
  case (Some m)
  show ?thesis
    unfolding consoleBlind_def Some
    by (intro allI state.equality) (simp_all add: openCallback_fail_eq)
qed

lemma consoleBlind_connectionHandler: "consoleBlind (connectionHandler C k addr url)"
  unfolding consoleBlind_def
  by (cases url; intro allI state.equality;
      simp add: connectionHandler_eq updateClient_eq uncaughtException_def)

lemma consoleBlind_if:
  assumes "\<And>s cs. b (s\<lparr>console := cs\<rparr>) = b s" and "consoleBlind f" and "consoleBlind g"
  shows "consoleBlind (\<lambda>s. if b s then f s else g s)"
  using assms by (simp add: consoleBlind_def)

lemma consoleBlind_id: "consoleBlind (\<lambda>s. s)"
  by (simp add: consoleBlind_def)

lemma consoleBlind_listeners:
  assumes "consoleBlind h"
  shows "consoleBlind (\<lambda>s. (h ^^ listeners p s) s)"
proof -
  have "((h ^^ listeners p (s\<lparr>console := cs\<rparr>)) (s\<lparr>console := cs\<rparr>))\<lparr>console := []\<rparr>
      = ((h ^^ listeners p s) s)\<lparr>console := []\<rparr>" for s cs
  proof -
    have "listeners p (s\<lparr>console := cs\<rparr>) = listeners p s"
      by (simp add: listeners_def)
    moreover have "consoleBlind (h ^^ listeners p s)"
      using assms by (rule consoleBlind_funpow)
    ultimately show ?thesis
      by (simp only: consoleBlind_def)
  qed
  then show ?thesis
    unfolding consoleBlind_def by blast
qed

lemma consoleBlind_OpenResult: "consoleBlind (step C (OpenResult err))"
proof -
  have "consoleBlind (\<lambda>s. s\<lparr>pendingOpens := pendingOpens s - 1\<rparr>)"
    unfolding consoleBlind_def by (intro allI state.equality) simp_all
  then have "consoleBlind (\<lambda>s. openCallback C err (s\<lparr>pendingOpens := pendingOpens s - 1\<rparr>))"
    using consoleBlind_openCallback by (rule consoleBlind_comp)
  with consoleBlind_id
  have "consoleBlind (\<lambda>s. if pendingOpens s = 0 then s
      else openCallback C err (s\<lparr>pendingOpens := pendingOpens s - 1\<rparr>))"
    by (intro consoleBlind_if) simp
  moreover have "step C (OpenResult err) = (\<lambda>s. if pendingOpens s = 0 then s
      else openCallback C err (s\<lparr>pendingOpens := pendingOpens s - 1\<rparr>))"
    by (simp add: fun_eq_iff step_def)
  ultimately show ?thesis
    by simp
qed

lemma consoleBlind_WsConnection: "consoleBlind (step C (WsConnection addr tok fails))"
proof -
  have "(connectionHandler C (nextClient s) addr tok
           (accept (nextClient s) tok fails (s\<lparr>console := cs\<rparr>)))\<lparr>console := []\<rparr>
      = (connectionHandler C (nextClient s) addr tok
           (accept (nextClient s) tok fails s))\<lparr>console := []\<rparr>" for s cs
  proof -
    have "accept (nextClient s) tok fails (s\<lparr>console := cs\<rparr>)
        = (accept (nextClient s) tok fails s)\<lparr>console := cs\<rparr>"
      by (simp add: accept_def split: option.splits)
    then show ?thesis
      using consoleBlind_connectionHandler [of C "nextClient s" addr tok]
      by (simp only: consoleBlind_def)
  qed
  then show ?thesis
    by (auto simp: consoleBlind_def step_def)
qed

lemma consoleBlind_step: "consoleBlind (step C e)"
proof (cases e)
  case (OpenResult err)
  then show ?thesis
    by (simp add: consoleBlind_OpenResult)
next
  case (SerialError p m)
  have "consoleBlind uncaughtException"
    unfolding consoleBlind_def
    by (intro allI state.equality) (simp_all add: uncaughtException_def)
  then have "consoleBlind (\<lambda>s. if listeners p s = 0 then uncaughtException s
      else (errorHandler m ^^ listeners p s) s)"
    using consoleBlind_listeners [OF consoleBlind_errorHandler]
    by (intro consoleBlind_if) (simp_all add: listeners_def)
  moreover have "step C (SerialError p m) = (\<lambda>s. if listeners p s = 0 then uncaughtException s
      else (errorHandler m ^^ listeners p s) s)"
    by (simp add: fun_eq_iff step_def)
  ultimately show ?thesis
    unfolding SerialError by simp
next
  case (SerialClose p)
  have "step C (SerialClose p) = (\<lambda>s. (closeHandler ^^ listeners p s) s)"
    by (simp add: fun_eq_iff step_def)
  then show ?thesis
    unfolding SerialClose using consoleBlind_listeners [OF consoleBlind_closeHandler] by simp
next
  case (SerialData p dat)
  have "step C (SerialData p dat) = (\<lambda>s. (dataHandler C (toString dat) ^^ listeners p s) s)"
    by (simp add: fun_eq_iff step_def)
  then show ?thesis
    unfolding SerialData using consoleBlind_listeners [OF consoleBlind_dataHandler] by simp
next
  case (IntervalTick h)
  show ?thesis
    unfolding consoleBlind_def IntervalTick
    by (intro allI state.equality) (simp_all add: step_def pollTick_def serial_write_def)
next
  case (TimeoutFires i)
  show ?thesis
    unfolding consoleBlind_def TimeoutFires
    by (intro allI state.equality)
       (simp_all add: step_def initSerialPort_def console_out_def Let_def)
next
  case (WriteResult err)
  show ?thesis
    unfolding consoleBlind_def WriteResult
    by (intro allI state.equality)
       (simp_all add: step_def writeCallback_def console_out_def split: option.splits)
next
  case (WsConnection addr tok fails)
  then show ?thesis
    by (simp add: consoleBlind_WsConnection)
next
  case (WsMessage k m)
  show ?thesis
    unfolding consoleBlind_def WsMessage
    by (intro allI state.equality)
       (simp_all add: step_def messageHandler_def serial_write_def console_out_def)
next
  case (WsClosed k)
  show ?thesis
    unfolding consoleBlind_def WsClosed
    by (intro allI state.equality)
       (simp_all add: step_def fold_wsCloseHandler dropClient_def wssClients_def
          split: option.splits)
qed

lemma sameButConsole_run:
  "sameButConsole s t \<Longrightarrow> sameButConsole (run C evs s) (run C evs t)"
proof (induction evs arbitrary: s t)
  case Nil
  then show ?case by simp
next
  case (Cons e es)
  from Cons.prems have "exited (s\<lparr>console := []\<rparr>) = exited (t\<lparr>console := []\<rparr>)"
    by (simp only: sameButConsole_def)
  then have same: "exited s = exited t"
    by simp
  from consoleBlind_step Cons.prems have "sameButConsole (step C e s) (step C e t)"
    by (rule consoleBlind_same)
  with same Cons.prems show ?case
    by (simp add: Cons.IH)
qed

subsection \<open>Reachable states\<close>

text \<open>The states the process reaches are \<open>run C evs (main C)\<close>, for any events.\<close>

lemma main_fields:
  "wss (main C) = None" "sent (main C) = []" "intervals (main C) = []" "pollTimer (main C) = None"
  "servers (main C) = 0" "nextClient (main C) = 0"
  by (simp_all add: main_def initSerialPort_def init_def console_out_def Let_def)

lemma main_invariants: "authInv C (main C)" "timerInv (main C)" "serverInv (main C)"
  by (simp_all add: authInv_def timerInv_def serverInv_def main_fields wssClients_def)

lemma reachable_invariants:
  "authInv C (run C evs (main C))" "timerInv (run C evs (main C))" "serverInv (run C evs (main C))"
  by (rule run_invariant, erule authInv_step, rule main_invariants,
      rule run_invariant, erule timerInv_step, rule main_invariants,
      rule run_invariant, erule serverInv_step, rule main_invariants)

lemma disconnected_run:
  "\<not> serialConnected st \<Longrightarrow> OpenResult None \<notin> set evs \<Longrightarrow>
     \<not> serialConnected (run C evs st) \<and> written (run C evs st) = written st"
proof (induction evs arbitrary: st)
  case Nil
  then show ?case by simp
next
  case (Cons e es)
  from Cons.prems have "\<not> serialConnected (step C e st) \<and> written (step C e st) = written st"
    by (intro disconnected_step) auto
  with Cons.IH [of "step C e st"] Cons.prems show ?case
    by simp
qed

lemma open_clients_authenticated:
  "authInv C st \<Longrightarrow>
     filter (\<lambda>c. Some (cid c) \<noteq> sender \<and> readyState c = OPEN) (wssClients st) =
     filter (\<lambda>c. readyState c = OPEN \<and> authenticated C c \<and> Some (cid c) \<noteq> sender) (wssClients st)"
  by (rule filter_cong) (auto simp: authInv_def)

lemma timeouts_kept_funpow:
  fixes h :: "state \<Rightarrow> state"
  assumes "\<And>s. \<exists>xs. timeouts (h s) = timeouts s @ xs"
  shows "\<exists>xs. timeouts ((h ^^ n) st) = timeouts st @ xs"
proof (induction n)
  case 0
  show ?case by simp
next
  case (Suc n)
  then obtain xs where "timeouts ((h ^^ n) st) = timeouts st @ xs" ..
  moreover from assms obtain ys where
    "timeouts (h ((h ^^ n) st)) = timeouts ((h ^^ n) st) @ ys" ..
  ultimately show ?case by simp
qed

lemma timeouts_kept:
  assumes "\<forall>i. e \<noteq> TimeoutFires i"
  shows "\<exists>xs. timeouts (step C e st) = timeouts st @ xs"
proof (cases e)
  case (OpenResult err)
  show ?thesis
    by (cases err)
       (simp_all add: OpenResult step_def openCallback_ok_parts openCallback_fail_eq
          startPolling_eq setupSerialHandlers_def broadcastToClients_eq console_out_def
          split: option.splits)
next
  case (SerialError p m)
  have "\<exists>xs. timeouts ((errorHandler m ^^ listeners p st) st) = timeouts st @ xs"
    by (rule timeouts_kept_funpow) (simp add: errorHandler_eq)
  then show ?thesis
    by (simp add: SerialError step_def)
next
  case (SerialClose p)
  show ?thesis
    unfolding SerialClose step_def event.case
    by (rule timeouts_kept_funpow) (simp add: closeHandler_eq)
next
  case (SerialData p dat)
  show ?thesis
    unfolding SerialData step_def event.case
    by (rule timeouts_kept_funpow) (simp add: dataHandler_eq Let_def)
next
  case (TimeoutFires i)
  with assms show ?thesis by simp
next
  case (WsConnection addr url fails)
  show ?thesis
    by (cases url) (simp_all add: WsConnection step_def connectionHandler_eq)
next
  case (WsClosed k)
  show ?thesis
    by (simp add: WsClosed step_def fold_wsCloseHandler)
qed (simp_all add: step_def pollTick_def writeCallback_def messageHandler_def serial_write_def
       console_out_def split: option.splits)

subsection \<open>Example states\<close>

lemma main_alive: "\<not> exited (main C)"
  by (simp add: main_def init_def initSerialPort_def console_out_def Let_def)

lemma run_one: "run C [e] (main C) = step C e (main C)"
  by (simp add: main_alive)

lemma example_opened:
  "run exampleConstants [OpenResult None] (main exampleConstants) =
     \<lparr>serial = Some 0, wss = Some \<lparr>clients = []\<rparr>, serialConnected = True, pollTimer = Some 0,
      serialBuffer = [], ports = [1], pendingOpens = 0, timeouts = [], intervals = [(0, 2000)],
      nextTimer = 1, nextClient = 0, servers = 1, written = [],
      console = [ConsoleLog (lit ''Attempting to open serial port COM5 at 115200...''),
                 ConsoleLog (lit ''Serial port COM5 opened successfully at 115200 8N1'' @ [LF]),
                 ConsoleLog (lit ''WebSocket Server started on port 8080'')],
      broadcasts = [lit ''[STATUS] Serial connected''], sent = [], delivered = [], exited = False\<rparr>"
  unfolding run_one
  by (simp add: main_def init_def initSerialPort_def step_def openCallback_ok_parts
        startPolling_eq setupSerialHandlers_def broadcastToClients_eq console_out_def
        startWebSocketServer_eq recipients_def wssClients_def exampleConstants_def Let_def lit_def)

lemmas example_defs =
  step_def connectionHandler_eq accept_def updateClient_eq requestIp_def tokenValue_def
  template_def ws_close_def exampleConstants_def listeners_def

lemma bad_token: "lit ''bad'' \<noteq> lit ''secret''"
  by (simp add: lit_def)

lemma example_client:
  "run exampleConstants
     [OpenResult None, WsConnection None (URL (Some (lit ''secret''))) False]
     (main exampleConstants) =
   \<lparr>serial = Some 0,
    wss = Some \<lparr>clients =
      [\<lparr>cid = 0, token = URL (Some (lit ''secret'')), ip = None, readyState = OPEN,
        messageListener = True, closeListener = True, sendFails = False\<rparr>]\<rparr>,
    serialConnected = True, pollTimer = Some 0, serialBuffer = [], ports = [1],
    pendingOpens = 0, timeouts = [], intervals = [(0, 2000)], nextTimer = 1, nextClient = 1,
    servers = 1,
    written = [(Some 0, lit ''=R'' @ [CR, LF])],
    console = [ConsoleLog (lit ''Attempting to open serial port COM5 at 115200...''),
               ConsoleLog (lit ''Serial port COM5 opened successfully at 115200 8N1'' @ [LF]),
               ConsoleLog (lit ''WebSocket Server started on port 8080''),
               ConsoleLog (lit ''WebSocket client connected from IP: '' @ lit ''undefined'')],
    broadcasts = [lit ''[STATUS] Serial connected''], sent = [], delivered = [], exited = False\<rparr>"
proof -
  have "\<not> exited (run exampleConstants [OpenResult None] (main exampleConstants))"
    unfolding example_opened by simp
  then have "run exampleConstants
      ([OpenResult None] @ [WsConnection None (URL (Some (lit ''secret''))) False])
      (main exampleConstants) =
    step exampleConstants (WsConnection None (URL (Some (lit ''secret''))) False)
      (run exampleConstants [OpenResult None] (main exampleConstants))"
    by (rule run_alive)
  also have "\<dots> = \<lparr>serial = Some 0,
    wss = Some \<lparr>clients =
      [\<lparr>cid = 0, token = URL (Some (lit ''secret'')), ip = None, readyState = OPEN,
        messageListener = True, closeListener = True, sendFails = False\<rparr>]\<rparr>,
    serialConnected = True, pollTimer = Some 0, serialBuffer = [], ports = [1],
    pendingOpens = 0, timeouts = [], intervals = [(0, 2000)], nextTimer = 1, nextClient = 1,
    servers = 1,
    written = [(Some 0, lit ''=R'' @ [CR, LF])],
    console = [ConsoleLog (lit ''Attempting to open serial port COM5 at 115200...''),
               ConsoleLog (lit ''Serial port COM5 opened successfully at 115200 8N1'' @ [LF]),
               ConsoleLog (lit ''WebSocket Server started on port 8080''),
               ConsoleLog (lit ''WebSocket client connected from IP: '' @ lit ''undefined'')],
    broadcasts = [lit ''[STATUS] Serial connected''], sent = [], delivered = [], exited = False\<rparr>"
    unfolding example_opened by (simp add: example_defs)
  finally show ?thesis
    by (simp only: append.simps)
qed

lemma example_clients:
  "run exampleConstants
     [OpenResult None, WsConnection None (URL (Some (lit ''secret''))) False,
      WsConnection None (URL (Some (lit ''bad''))) False,
      WsConnection None (URL (Some (lit ''secret''))) True]
     (main exampleConstants) =
   \<lparr>serial = Some 0,
    wss = Some \<lparr>clients =
      [\<lparr>cid = 0, token = URL (Some (lit ''secret'')), ip = None, readyState = OPEN,
        messageListener = True, closeListener = True, sendFails = False\<rparr>,
       \<lparr>cid = 1, token = URL (Some (lit ''bad'')), ip = None, readyState = CLOSING,
        messageListener = False, closeListener = False, sendFails = False\<rparr>,
       \<lparr>cid = 2, token = URL (Some (lit ''secret'')), ip = None, readyState = OPEN,
        messageListener = True, closeListener = True, sendFails = True\<rparr>]\<rparr>,
    serialConnected = True, pollTimer = Some 0, serialBuffer = [], ports = [1],
    pendingOpens = 0, timeouts = [], intervals = [(0, 2000)], nextTimer = 1, nextClient = 3,
    servers = 1,
    written = [(Some 0, lit ''=R'' @ [CR, LF]), (Some 0, lit ''=R'' @ [CR, LF])],
    console = [ConsoleLog (lit ''Attempting to open serial port COM5 at 115200...''),
               ConsoleLog (lit ''Serial port COM5 opened successfully at 115200 8N1'' @ [LF]),
               ConsoleLog (lit ''WebSocket Server started on port 8080''),
               ConsoleLog (lit ''WebSocket client connected from IP: '' @ lit ''undefined''),
               ConsoleLog (lit ''WebSocket client connected from IP: '' @ lit ''undefined''),
               ConsoleLog (lit ''Invalid token from IP: '' @ lit ''undefined''),
               ConsoleLog (lit ''WebSocket client connected from IP: '' @ lit ''undefined'')],
    broadcasts = [lit ''[STATUS] Serial connected''], sent = [], delivered = [], exited = False\<rparr>"
proof -
  let ?c = "run exampleConstants
     [OpenResult None, WsConnection None (URL (Some (lit ''secret''))) False]
     (main exampleConstants)"
  have "\<not> exited ?c"
    unfolding example_client by simp
  moreover have "\<not> exited (step exampleConstants
      (WsConnection None (URL (Some (lit ''bad''))) False) ?c)"
    unfolding example_client by (simp add: example_defs bad_token)
  ultimately have "run exampleConstants
      ([OpenResult None, WsConnection None (URL (Some (lit ''secret''))) False] @
       [WsConnection None (URL (Some (lit ''bad''))) False,
        WsConnection None (URL (Some (lit ''secret''))) True])
      (main exampleConstants) =
    step exampleConstants (WsConnection None (URL (Some (lit ''secret''))) True)
      (step exampleConstants (WsConnection None (URL (Some (lit ''bad''))) False) ?c)"
    by (rule run_alive2)
  also have "\<dots> = \<lparr>serial = Some 0,
    wss = Some \<lparr>clients =
      [\<lparr>cid = 0, token = URL (Some (lit ''secret'')), ip = None, readyState = OPEN,
        messageListener = True, closeListener = True, sendFails = False\<rparr>,
       \<lparr>cid = 1, token = URL (Some (lit ''bad'')), ip = None, readyState = CLOSING,
        messageListener = False, closeListener = False, sendFails = False\<rparr>,
       \<lparr>cid = 2, token = URL (Some (lit ''secret'')), ip = None, readyState = OPEN,
        messageListener = True, closeListener = True, sendFails = True\<rparr>]\<rparr>,
    serialConnected = True, pollTimer = Some 0, serialBuffer = [], ports = [1],
    pendingOpens = 0, timeouts = [], intervals = [(0, 2000)], nextTimer = 1, nextClient = 3,
    servers = 1,
    written = [(Some 0, lit ''=R'' @ [CR, LF]), (Some 0, lit ''=R'' @ [CR, LF])],
    console = [ConsoleLog (lit ''Attempting to open serial port COM5 at 115200...''),
               ConsoleLog (lit ''Serial port COM5 opened successfully at 115200 8N1'' @ [LF]),
               ConsoleLog (lit ''WebSocket Server started on port 8080''),
               ConsoleLog (lit ''WebSocket client connected from IP: '' @ lit ''undefined''),
               ConsoleLog (lit ''WebSocket client connected from IP: '' @ lit ''undefined''),
               ConsoleLog (lit ''Invalid token from IP: '' @ lit ''undefined''),
               ConsoleLog (lit ''WebSocket client connected from IP: '' @ lit ''undefined'')],
    broadcasts = [lit ''[STATUS] Serial connected''], sent = [], delivered = [], exited = False\<rparr>"
    unfolding example_client by (simp add: example_defs bad_token)
  finally show ?thesis
    by (simp only: append.simps)
qed

lemma example_closed:
  "wssClients (run exampleConstants
       [OpenResult None, WsConnection None (URL (Some (lit ''secret''))) False, SerialClose 0]
       (main exampleConstants)) =
     [\<lparr>cid = 0, token = URL (Some (lit ''secret'')), ip = None, readyState = OPEN,
       messageListener = True, closeListener = True, sendFails = False\<rparr>]"
  "serialConnected (run exampleConstants
       [OpenResult None, WsConnection None (URL (Some (lit ''secret''))) False, SerialClose 0]
       (main exampleConstants)) = False"
  "written (run exampleConstants
       [OpenResult None, WsConnection None (URL (Some (lit ''secret''))) False, SerialClose 0]
       (main exampleConstants)) = [(Some 0, lit ''=R'' @ [CR, LF])]"
proof -
  let ?c = "run exampleConstants
       [OpenResult None, WsConnection None (URL (Some (lit ''secret''))) False]
       (main exampleConstants)"
  have "listeners 0 ?c = 1"
    unfolding example_client by (simp add: listeners_def)
  then have "step exampleConstants (SerialClose 0) ?c = closeHandler ?c"
    by (simp add: step_def del: run.simps)
  moreover have "\<not> exited ?c"
    unfolding example_client by simp
  then have "run exampleConstants
       ([OpenResult None, WsConnection None (URL (Some (lit ''secret''))) False] @ [SerialClose 0])
       (main exampleConstants) = step exampleConstants (SerialClose 0) ?c"
    by (rule run_alive)
  then have "run exampleConstants
       [OpenResult None, WsConnection None (URL (Some (lit ''secret''))) False, SerialClose 0]
       (main exampleConstants) = step exampleConstants (SerialClose 0) ?c"
    by (simp only: append.simps)
  ultimately have closed: "run exampleConstants
       [OpenResult None, WsConnection None (URL (Some (lit ''secret''))) False, SerialClose 0]
       (main exampleConstants) = closeHandler ?c"
    by (simp only:)
  show "wssClients (run exampleConstants
       [OpenResult None, WsConnection None (URL (Some (lit ''secret''))) False, SerialClose 0]
       (main exampleConstants)) =
     [\<lparr>cid = 0, token = URL (Some (lit ''secret'')), ip = None, readyState = OPEN,
       messageListener = True, closeListener = True, sendFails = False\<rparr>]"
    unfolding closed example_client by (simp add: closeHandler_eq wssClients_def)
  show "serialConnected (run exampleConstants
       [OpenResult None, WsConnection None (URL (Some (lit ''secret''))) False, SerialClose 0]
       (main exampleConstants)) = False"
    unfolding closed by (simp add: closeHandler_eq)
  show "written (run exampleConstants
       [OpenResult None, WsConnection None (URL (Some (lit ''secret''))) False, SerialClose 0]
       (main exampleConstants)) = [(Some 0, lit ''=R'' @ [CR, LF])]"
    unfolding closed example_client by (simp add: closeHandler_eq)
qed

subsection \<open>The link, event by event\<close>

lemma funpow_link:
  fixes h :: "state \<Rightarrow> state"
  assumes "\<And>s. serial (h s) = serial s \<and> ports (h s) = ports s
              \<and> pendingOpens (h s) = pendingOpens s \<and> exited (h s) = exited s"
  shows "serial ((h ^^ n) st) = serial st \<and> ports ((h ^^ n) st) = ports st
       \<and> pendingOpens ((h ^^ n) st) = pendingOpens st \<and> exited ((h ^^ n) st) = exited st"
  by (induction n) (simp_all add: assms)

lemma funpow_retries:
  fixes h :: "state \<Rightarrow> state"
  assumes "\<And>s. timeouts (h s) = timeouts s @ [5000]"
  shows "timeouts ((h ^^ n) st) = timeouts st @ replicate n 5000"
  by (induction n) (simp_all add: assms replicate_append_same)

lemma funpow_disconnects:
  fixes h :: "state \<Rightarrow> state"
  assumes "\<And>s. \<not> serialConnected (h s)"
  shows "serialConnected ((h ^^ n) st) \<longleftrightarrow> n = 0 \<and> serialConnected st"
  by (cases n) (simp_all add: assms)

lemma link_SerialError:
  "serial (step C (SerialError p m) st) = serial st"
  "ports (step C (SerialError p m) st) = ports st"
  "pendingOpens (step C (SerialError p m) st) = pendingOpens st"
  "exited (step C (SerialError p m) st) \<longleftrightarrow> listeners p st = 0 \<or> exited st"
  "timeouts (step C (SerialError p m) st) = timeouts st @ replicate (listeners p st) 5000"
  "serialConnected (step C (SerialError p m) st) \<longleftrightarrow> listeners p st = 0 \<and> serialConnected st"
proof -
  have "serial ((errorHandler m ^^ n) st) = serial st \<and> ports ((errorHandler m ^^ n) st) = ports st
       \<and> pendingOpens ((errorHandler m ^^ n) st) = pendingOpens st
       \<and> exited ((errorHandler m ^^ n) st) = exited st" for n
    by (rule funpow_link) (simp add: errorHandler_eq)
  moreover have "timeouts ((errorHandler m ^^ n) st) = timeouts st @ replicate n 5000" for n
    by (rule funpow_retries) (simp add: errorHandler_eq)
  moreover have "serialConnected ((errorHandler m ^^ n) st) \<longleftrightarrow> n = 0 \<and> serialConnected st" for n
    by (rule funpow_disconnects) (simp add: errorHandler_eq)
  ultimately show
    "serial (step C (SerialError p m) st) = serial st"
    "ports (step C (SerialError p m) st) = ports st"
    "pendingOpens (step C (SerialError p m) st) = pendingOpens st"
    "exited (step C (SerialError p m) st) \<longleftrightarrow> listeners p st = 0 \<or> exited st"
    "timeouts (step C (SerialError p m) st) = timeouts st @ replicate (listeners p st) 5000"
    "serialConnected (step C (SerialError p m) st) \<longleftrightarrow> listeners p st = 0 \<and> serialConnected st"
    by (simp_all add: step_def)
qed

lemma link_SerialClose:
  "serial (step C (SerialClose p) st) = serial st"
  "ports (step C (SerialClose p) st) = ports st"
  "pendingOpens (step C (SerialClose p) st) = pendingOpens st"
  "exited (step C (SerialClose p) st) = exited st"
  "timeouts (step C (SerialClose p) st) = timeouts st @ replicate (listeners p st) 5000"
  "serialConnected (step C (SerialClose p) st) \<longleftrightarrow> listeners p st = 0 \<and> serialConnected st"
proof -
  have "serial ((closeHandler ^^ n) st) = serial st \<and> ports ((closeHandler ^^ n) st) = ports st
       \<and> pendingOpens ((closeHandler ^^ n) st) = pendingOpens st
       \<and> exited ((closeHandler ^^ n) st) = exited st" for n
    by (rule funpow_link) (simp add: closeHandler_eq)
  moreover have "timeouts ((closeHandler ^^ n) st) = timeouts st @ replicate n 5000" for n
    by (rule funpow_retries) (simp add: closeHandler_eq)
  moreover have "serialConnected ((closeHandler ^^ n) st) \<longleftrightarrow> n = 0 \<and> serialConnected st" for n
    by (rule funpow_disconnects) (simp add: closeHandler_eq)
  ultimately show
    "serial (step C (SerialClose p) st) = serial st"
    "ports (step C (SerialClose p) st) = ports st"
    "pendingOpens (step C (SerialClose p) st) = pendingOpens st"
    "exited (step C (SerialClose p) st) = exited st"
    "timeouts (step C (SerialClose p) st) = timeouts st @ replicate (listeners p st) 5000"
    "serialConnected (step C (SerialClose p) st) \<longleftrightarrow> listeners p st = 0 \<and> serialConnected st"
    by (simp_all add: step_def)
qed

lemma link_SerialData:
  "serial (step C (SerialData p dat) st) = serial st"
  "ports (step C (SerialData p dat) st) = ports st"
  "pendingOpens (step C (SerialData p dat) st) = pendingOpens st"
  "exited (step C (SerialData p dat) st) = exited st"
proof -
  have "serial ((dataHandler C (toString dat) ^^ n) st) = serial st
       \<and> ports ((dataHandler C (toString dat) ^^ n) st) = ports st
       \<and> pendingOpens ((dataHandler C (toString dat) ^^ n) st) = pendingOpens st
       \<and> exited ((dataHandler C (toString dat) ^^ n) st) = exited st" for n
    by (rule funpow_link) (simp add: dataHandler_eq Let_def)
  then show
    "serial (step C (SerialData p dat) st) = serial st"
    "ports (step C (SerialData p dat) st) = ports st"
    "pendingOpens (step C (SerialData p dat) st) = pendingOpens st"
    "exited (step C (SerialData p dat) st) = exited st"
    by (simp_all add: step_def)
qed

lemma link_TimeoutFires:
  assumes "i < length (timeouts st)"
  shows "serial (step C (TimeoutFires i) st) = Some (length (ports st))"
    "ports (step C (TimeoutFires i) st) = ports st @ [0]"
    "pendingOpens (step C (TimeoutFires i) st) = Suc (pendingOpens st)"
    "exited (step C (TimeoutFires i) st) = exited st"
    "timeouts (step C (TimeoutFires i) st) = take i (timeouts st) @ drop (Suc i) (timeouts st)"
    "serialConnected (step C (TimeoutFires i) st) = serialConnected st"
  using assms by (simp_all add: step_def initSerialPort_def console_out_def Let_def)

lemma link_OpenResult_None:
  assumes "0 < pendingOpens st"
  shows "serial (step C (OpenResult None) st) = serial st"
    "ports (step C (OpenResult None) st) =
       (case serial st of None \<Rightarrow> ports st | Some p \<Rightarrow> (ports st)[p := Suc (ports st ! p)])"
    "pendingOpens (step C (OpenResult None) st) = pendingOpens st - 1"
    "exited (step C (OpenResult None) st) = exited st"
    "timeouts (step C (OpenResult None) st) = timeouts st"
    "serialConnected (step C (OpenResult None) st)"
  using assms
  by (simp_all add: step_def openCallback_ok_parts startPolling_eq setupSerialHandlers_def
        broadcastToClients_eq console_out_def split: option.splits)

lemma link_OpenResult_Some:
  assumes "0 < pendingOpens st"
  shows "serial (step C (OpenResult (Some m)) st) = serial st"
    "ports (step C (OpenResult (Some m)) st) = ports st"
    "pendingOpens (step C (OpenResult (Some m)) st) = pendingOpens st - 1"
    "exited (step C (OpenResult (Some m)) st) = exited st"
    "timeouts (step C (OpenResult (Some m)) st) = timeouts st @ [5000]"
    "serialConnected (step C (OpenResult (Some m)) st) = serialConnected st"
  using assms by (simp_all add: step_def openCallback_fail_eq)

lemma serial_ports_kept:
  assumes "e \<noteq> OpenResult None" and "\<forall>i. e \<noteq> TimeoutFires i"
  shows "serial (step C e st) = serial st \<and> ports (step C e st) = ports st"
proof (cases e)
  case (OpenResult err)
  with assms show ?thesis
    by (cases err) (simp_all add: step_def openCallback_fail_eq)
next
  case (SerialError p m)
  then show ?thesis by (simp add: link_SerialError)
next
  case (SerialClose p)
  then show ?thesis by (simp add: link_SerialClose)
next
  case (SerialData p dat)
  then show ?thesis by (simp add: link_SerialData)
next
  case (TimeoutFires i)
  with assms show ?thesis by simp
next
  case (WsConnection addr url fails)
  show ?thesis
    by (cases url) (simp_all add: WsConnection step_def connectionHandler_eq)
next
  case (WsClosed k)
  show ?thesis
    by (simp add: WsClosed step_def fold_wsCloseHandler)
qed (simp_all add: step_def pollTick_def writeCallback_def messageHandler_def serial_write_def
       console_out_def split: option.splits)

lemma exited_step:
  assumes "\<forall>addr fails. e \<noteq> WsConnection addr InvalidURL fails" and "\<forall>p m. e \<noteq> SerialError p m"
  shows "exited (step C e st) = exited st"
proof (cases e)
  case (OpenResult err)
  show ?thesis
    by (cases err)
       (simp_all add: OpenResult step_def openCallback_ok_parts openCallback_fail_eq
          startPolling_eq setupSerialHandlers_def broadcastToClients_eq console_out_def
          split: option.splits)
next
  case (SerialError p m)
  with assms show ?thesis by simp
next
  case (SerialClose p)
  then show ?thesis by (simp add: link_SerialClose)
next
  case (SerialData p dat)
  then show ?thesis by (simp add: link_SerialData)
next
  case (TimeoutFires i)
  show ?thesis
    by (simp add: TimeoutFires step_def initSerialPort_def console_out_def Let_def)
next
  case (WsConnection addr url fails)
  with assms have "url \<noteq> InvalidURL"
    by auto
  then show ?thesis
    by (cases url) (simp_all add: WsConnection step_def connectionHandler_eq)
next
  case (WsClosed k)
  show ?thesis
    by (simp add: WsClosed step_def fold_wsCloseHandler)
qed (simp_all add: step_def pollTick_def writeCallback_def messageHandler_def serial_write_def
       console_out_def split: option.splits)

lemma run_fold:
  "\<forall>e \<in> set es. (\<forall>addr fails. e \<noteq> WsConnection addr InvalidURL fails)
       \<and> (\<forall>p m. e \<noteq> SerialError p m) \<Longrightarrow>
     \<not> exited st \<Longrightarrow> run C es st = fold (step C) es st"
  by (induction es arbitrary: st) (simp_all add: exited_step)

lemma serial_in_ports:
  "serial (run C evs (main C)) = Some p \<Longrightarrow> p < length (ports (run C evs (main C)))"
proof -
  have "\<forall>p. serial (run C evs (main C)) = Some p \<longrightarrow> p < length (ports (run C evs (main C)))"
  proof (rule run_invariant)
    show "\<forall>p. serial (main C) = Some p \<longrightarrow> p < length (ports (main C))"
      by (simp add: main_def init_def initSerialPort_def console_out_def Let_def)
  next
    fix e and s :: state
    assume inv: "\<forall>p. serial s = Some p \<longrightarrow> p < length (ports s)"
    show "\<forall>p. serial (step C e s) = Some p \<longrightarrow> p < length (ports (step C e s))"
    proof (cases "e = OpenResult None \<or> (\<exists>i. e = TimeoutFires i)")
      case False
      with serial_ports_kept [of e C s] inv show ?thesis
        by simp
    next
      case True
      then show ?thesis
      proof
        assume e: "e = OpenResult None"
        show ?thesis
        proof (cases "0 < pendingOpens s")
          case True
          with inv show ?thesis
            unfolding e by (auto simp: link_OpenResult_None split: option.splits)
        next
          case False
          with inv show ?thesis
            unfolding e by (simp add: step_def)
        qed
      next
        assume "\<exists>i. e = TimeoutFires i"
        then obtain i where e: "e = TimeoutFires i" ..
        show ?thesis
        proof (cases "i < length (timeouts s)")
          case True
          then show ?thesis
            unfolding e by (simp add: link_TimeoutFires)
        next
          case False
          with inv show ?thesis
            unfolding e by (simp add: step_def)
        qed
      qed
    qed
  qed
  then show "serial (run C evs (main C)) = Some p \<Longrightarrow> p < length (ports (run C evs (main C)))"
    by simp
qed

lemma listeners_kept:
  "listeners q (step C (SerialError p m) st) = listeners q st"
  "listeners q (step C (SerialClose p) st) = listeners q st"
  by (simp_all add: listeners_def link_SerialError link_SerialClose)

lemma step_SerialClose_once:
  "listeners p st = 1 \<Longrightarrow> step C (SerialClose p) st = closeHandler st"
  by (simp add: step_def)

lemma step_SerialClose_none:
  "listeners p st = 0 \<Longrightarrow> step C (SerialClose p) st = st"
  by (simp add: step_def)

subsection \<open>C2: retries of the serial open\<close>

text \<open>
  Claim C2, as amended. Each link failure schedules a retry of the serial open 5000 ms
  later for every run of its handler, and cancels nothing. The result of an open that
  failed runs the open callback once: one retry. An error event or a close event of a port
  runs the listener once for each time \<open>setupSerialHandlers\<close> registered the listeners on
  that port: as many retries, behind those that were pending; and each open that succeeds
  registers the listeners once more on the port that \<open>serial\<close> names then. No other event
  cancels a retry either: after any event but the expiry of a timeout, the timeouts that
  were pending are still pending. So several retries can be pending at once.
\<close>

theorem retry_scheduled_never_cancelled:
  "(0 < pendingOpens st \<longrightarrow>
      timeouts (step C (OpenResult (Some m)) st) = timeouts st @ [5000])
   \<and> timeouts (step C (SerialError p m) st) = timeouts st @ replicate (listeners p st) 5000
   \<and> timeouts (step C (SerialClose p) st) = timeouts st @ replicate (listeners p st) 5000
   \<and> (0 < pendingOpens st \<and> serial st = Some p \<and> p < length (ports st) \<longrightarrow>
        listeners p (step C (OpenResult None) st) = Suc (listeners p st))
   \<and> ((\<forall>i. e \<noteq> TimeoutFires i) \<longrightarrow>
        take (length (timeouts st)) (timeouts (step C e st)) = timeouts st)"
proof -
  have "take (length (timeouts st)) (timeouts (step C e st)) = timeouts st"
    if "\<forall>i. e \<noteq> TimeoutFires i"
    using timeouts_kept [OF that, of C st] by auto
  moreover have "listeners p (step C (OpenResult None) st) = Suc (listeners p st)"
    if "0 < pendingOpens st" and "serial st = Some p" and "p < length (ports st)"
    using that by (simp add: listeners_def link_OpenResult_None)
  ultimately show ?thesis
    by (simp add: link_OpenResult_Some link_SerialError link_SerialClose)
qed

text \<open>
  Witness for C2: the process starts and the port opens, which registers the listeners
  once on port 0; its error event schedules one retry, and its close event a second one
  behind the first, which stays.
\<close>

theorem retry_scheduled_never_cancelled_witness:
  "0 < pendingOpens (main exampleConstants) \<and> serial (main exampleConstants) = Some 0
   \<and> 0 < length (ports (main exampleConstants))
   \<and> listeners 0 (step exampleConstants (OpenResult None) (main exampleConstants)) = 1
   \<and> timeouts (step exampleConstants (SerialError 0 (lit ''EIO''))
        (step exampleConstants (OpenResult None) (main exampleConstants))) = [5000]
   \<and> timeouts (step exampleConstants (SerialClose 0)
        (step exampleConstants (SerialError 0 (lit ''EIO''))
          (step exampleConstants (OpenResult None) (main exampleConstants)))) = [5000, 5000]
   \<and> take 1 (timeouts (step exampleConstants (SerialClose 0)
        (step exampleConstants (SerialError 0 (lit ''EIO''))
          (step exampleConstants (OpenResult None) (main exampleConstants))))) = [5000]"
proof -
  let ?m = "main exampleConstants"
  let ?s1 = "step exampleConstants (OpenResult None) ?m"
  let ?s2 = "step exampleConstants (SerialError 0 (lit ''EIO'')) ?s1"
  let ?s3 = "step exampleConstants (SerialClose 0) ?s2"
  have m: "0 < pendingOpens ?m" "serial ?m = Some 0" "0 < length (ports ?m)"
    "listeners 0 ?m = 0"
    by (simp_all add: main_def init_def initSerialPort_def console_out_def Let_def listeners_def)
  note r0 = retry_scheduled_never_cancelled [of ?m exampleConstants "lit ''EIO''" 0 "SerialClose 0"]
  from r0 [THEN conjunct2, THEN conjunct2, THEN conjunct2, THEN conjunct1] m
  have l1: "listeners 0 ?s1 = 1"
    by simp
  have t1: "timeouts ?s1 = []"
    unfolding run_one [symmetric] example_opened by simp
  note r1 = retry_scheduled_never_cancelled [of ?s1 exampleConstants "lit ''EIO''" 0 "SerialClose 0"]
  from r1 [THEN conjunct2, THEN conjunct1]
  have t2: "timeouts ?s2 = [5000]"
    by (simp only: l1 t1) simp
  have l2: "listeners 0 ?s2 = 1"
    by (simp only: listeners_kept l1)
  note r2 = retry_scheduled_never_cancelled [of ?s2 exampleConstants "lit ''EIO''" 0 "SerialClose 0"]
  from r2 [THEN conjunct2, THEN conjunct2, THEN conjunct1]
  have t3: "timeouts ?s3 = [5000, 5000]"
    by (simp only: l2 t2) simp
  from r2 [THEN conjunct2, THEN conjunct2, THEN conjunct2, THEN conjunct2]
  have "take 1 (timeouts ?s3) = [5000]"
    by (simp add: t2)
  with m l1 t2 t3 show ?thesis
    by (intro conjI)
qed

text \<open>
  Counterexample to C2 as stated (at most one retry is pending at any time): the process
  starts, the port opens, then the port emits an error event and a close event. Two
  retries of 5000 ms are pending.
\<close>

theorem two_retries_pending_counterexample:
  "timeouts (run exampleConstants [OpenResult None, SerialError 0 (lit ''EIO''), SerialClose 0]
      (main exampleConstants)) = [5000, 5000]"
proof -
  let ?s = "run exampleConstants [OpenResult None] (main exampleConstants)"
  have "\<not> exited ?s"
    unfolding example_opened by simp
  moreover have "\<not> exited (step exampleConstants (SerialError 0 (lit ''EIO'')) ?s)"
    unfolding example_opened by (simp add: step_def listeners_def errorHandler_eq)
  ultimately have "run exampleConstants
        ([OpenResult None] @ [SerialError 0 (lit ''EIO''), SerialClose 0]) (main exampleConstants)
      = step exampleConstants (SerialClose 0)
          (step exampleConstants (SerialError 0 (lit ''EIO'')) ?s)"
    by (rule run_alive2)
  then show ?thesis
    unfolding example_opened
    by (simp add: step_def listeners_def errorHandler_eq closeHandler_eq del: run.simps)
qed

subsection \<open>C3: broadcast\<close>

text \<open>
  Claim C3. In every state the process reaches, \<open>broadcastToClients m sender\<close> calls
  \<^verbatim>\<open>send\<close> with \<open>m\<close> once for each socket of \<^verbatim>\<open>wss.clients\<close> that is open, has
  presented the configured token and is not the sender, in the order of the set, and for
  no other socket; the message is delivered to each of these whose own send does not
  fail, whatever happens to the sends to the others.
\<close>

theorem broadcast_reaches_open_authenticated:
  "sent (broadcastToClients m sender (run C evs (main C))) =
     sent (run C evs (main C)) @ map (\<lambda>c. (cid c, m))
       (filter (\<lambda>c. readyState c = OPEN \<and> authenticated C c \<and> Some (cid c) \<noteq> sender)
          (wssClients (run C evs (main C))))
   \<and> delivered (broadcastToClients m sender (run C evs (main C))) =
     delivered (run C evs (main C)) @ map (\<lambda>c. (cid c, m))
       (filter (\<lambda>c. \<not> sendFails c)
          (filter (\<lambda>c. readyState c = OPEN \<and> authenticated C c \<and> Some (cid c) \<noteq> sender)
             (wssClients (run C evs (main C)))))"
proof -
  have "recipients sender (run C evs (main C)) =
      filter (\<lambda>c. readyState c = OPEN \<and> authenticated C c \<and> Some (cid c) \<noteq> sender)
        (wssClients (run C evs (main C)))"
    unfolding recipients_def by (rule open_clients_authenticated) (rule reachable_invariants)
  then show ?thesis
    by (simp add: broadcastToClients_eq)
qed

text \<open>
  Witness for C3: three sockets, the second with a wrong token and the third with failing
  sends. The broadcast is sent to the first and the third and delivered to the first.
\<close>

theorem broadcast_reaches_open_authenticated_witness:
  "sent (broadcastToClients [0x41] None (run exampleConstants
     [OpenResult None, WsConnection None (URL (Some (lit ''secret''))) False,
      WsConnection None (URL (Some (lit ''bad''))) False, WsConnection None (URL (Some (lit ''secret''))) True]
     (main exampleConstants))) = [(0, [0x41]), (2, [0x41])]
   \<and> delivered (broadcastToClients [0x41] None (run exampleConstants
     [OpenResult None, WsConnection None (URL (Some (lit ''secret''))) False,
      WsConnection None (URL (Some (lit ''bad''))) False, WsConnection None (URL (Some (lit ''secret''))) True]
     (main exampleConstants))) = [(0, [0x41])]"
  using broadcast_reaches_open_authenticated [of "[0x41]" None exampleConstants
     "[OpenResult None, WsConnection None (URL (Some (lit ''secret''))) False,
      WsConnection None (URL (Some (lit ''bad''))) False, WsConnection None (URL (Some (lit ''secret''))) True]"]
  unfolding example_clients
  by (simp add: wssClients_def authenticated_def tokenValue_def exampleConstants_def bad_token)

subsection \<open>C5: a connection without the configured token\<close>



subsection \<open>C6: a connection with the configured token\<close>

text \<open>
  When the server exists and the URL of a request parses and gives the configured token,
  the poll command \<^verbatim>\<open>=R\r\n\<close> is written once to the serial port if the link is
  connected, and nothing is written if it is not; the link state (connected flag, port,
  buffer, poll timer, retries, listeners of the ports, pending opens) does not change and
  the process goes on.
\<close>

lemma parsed_token_polls_once:
  assumes "wss st \<noteq> None" and "tokenValue tok = AUTH_TOKEN C"
  shows "written (step C (WsConnection addr (URL tok) fails) st) =
           written st @ (if serialConnected st then [(serial st, lit ''=R'' @ [CR, LF])] else [])
       \<and> serialConnected (step C (WsConnection addr (URL tok) fails) st) = serialConnected st
       \<and> serial (step C (WsConnection addr (URL tok) fails) st) = serial st
       \<and> serialBuffer (step C (WsConnection addr (URL tok) fails) st) = serialBuffer st
       \<and> pollTimer (step C (WsConnection addr (URL tok) fails) st) = pollTimer st
       \<and> intervals (step C (WsConnection addr (URL tok) fails) st) = intervals st
       \<and> timeouts (step C (WsConnection addr (URL tok) fails) st) = timeouts st
       \<and> ports (step C (WsConnection addr (URL tok) fails) st) = ports st
       \<and> pendingOpens (step C (WsConnection addr (URL tok) fails) st) = pendingOpens st
       \<and> exited (step C (WsConnection addr (URL tok) fails) st) = exited st"
  using assms by (auto simp: step_def connectionHandler_eq)

text \<open>
  Claim C6 says that every connection presenting the configured token while the link is
  connected causes one write of the poll command. The code does not do so when the URL of
  the request does not parse, whatever token the request target carries
  (\<^verbatim>\<open>//?token=secret\<close> has an empty host): line 166 throws before the token is read,
  nothing catches the exception, the process ends and nothing is written, in every state
  in which the server exists, and no event is handled afterwards.
\<close>

theorem unparsable_url_ends_process_without_poll:
  assumes "wss st \<noteq> None"
  shows "written (step C (WsConnection addr InvalidURL fails) st) = written st
       \<and> exited (step C (WsConnection addr InvalidURL fails) st)
       \<and> run C later (step C (WsConnection addr InvalidURL fails) st)
           = step C (WsConnection addr InvalidURL fails) st"
proof -
  from assms have "exited (step C (WsConnection addr InvalidURL fails) st)"
    and "written (step C (WsConnection addr InvalidURL fails) st) = written st"
    by (auto simp: step_def connectionHandler_eq)
  then show ?thesis
    by (simp add: run_exited del: run.simps)
qed

text \<open>
  The failing input of C6: the port has opened, the link is connected and the server
  exists; a request whose URL does not parse arrives. Nothing is written, the process has
  ended, and the tick of the poll timer that would follow is not handled.
\<close>

theorem unparsable_url_ends_process_without_poll_witness:
  "wss (run exampleConstants [OpenResult None] (main exampleConstants)) \<noteq> None
   \<and> serialConnected (run exampleConstants [OpenResult None] (main exampleConstants))
   \<and> written (step exampleConstants (WsConnection None InvalidURL False)
        (run exampleConstants [OpenResult None] (main exampleConstants))) = []
   \<and> exited (step exampleConstants (WsConnection None InvalidURL False)
        (run exampleConstants [OpenResult None] (main exampleConstants)))
   \<and> written (run exampleConstants [IntervalTick 0]
        (step exampleConstants (WsConnection None InvalidURL False)
          (run exampleConstants [OpenResult None] (main exampleConstants)))) = []"
proof -
  let ?s = "run exampleConstants [OpenResult None] (main exampleConstants)"
  have h: "wss ?s \<noteq> None"
    unfolding example_opened by simp
  have s: "written ?s = []" "serialConnected ?s"
    unfolding example_opened by simp_all
  note r = unparsable_url_ends_process_without_poll
    [OF h, of exampleConstants None False "[IntervalTick 0]"]
  from r [THEN conjunct1]
  have w: "written (step exampleConstants (WsConnection None InvalidURL False) ?s) = []"
    by (simp only: s)
  from r [THEN conjunct2, THEN conjunct2]
  have "written (run exampleConstants [IntervalTick 0]
        (step exampleConstants (WsConnection None InvalidURL False) ?s)) = []"
    by (simp only: w)
  then show ?thesis
    using h s(2) w r [THEN conjunct2, THEN conjunct1] by (intro conjI)
qed

subsection \<open>C7: a client message\<close>

text \<open>
  Claim C7. A message of a socket that has the message listener, when the link is not
  connected: nothing is written to the serial port, the console gets the warning, the
  server and its sockets are unchanged (the socket stays open), and whatever events
  follow, the process goes on as if the message had never arrived, console apart: the
  message is neither queued nor replayed. When the link is connected, the payload is
  written with \<^verbatim>\<open>\r\n\<close> appended.
\<close>

theorem message_dropped_while_disconnected:
  assumes "\<exists>c \<in> set (wssClients st). cid c = k \<and> messageListener c"
  shows "(\<not> serialConnected st \<longrightarrow>
            written (step C (WsMessage k m) st) = written st
          \<and> console (step C (WsMessage k m) st) = console st @
              [ConsoleWarn (lit ''Serial not connected '' @ [0xE2, 0x20AC, 0x201D]
                 @ lit '' WS message ignored'')]
          \<and> wss (step C (WsMessage k m) st) = wss st
          \<and> sameButConsole (run C later (step C (WsMessage k m) st)) (run C later st))
       \<and> (serialConnected st \<longrightarrow>
            written (step C (WsMessage k m) st) = written st @ [(serial st, m @ [CR, LF])])"
proof -
  from assms have handled: "step C (WsMessage k m) st = messageHandler m st"
    by (simp add: step_def)
  have "sameButConsole (run C later (messageHandler m st)) (run C later st)"
    if "\<not> serialConnected st"
  proof (rule sameButConsole_run)
    from that show "sameButConsole (messageHandler m st) st"
      by (simp add: sameButConsole_def messageHandler_def console_out_def)
  qed
  then show ?thesis
    unfolding handled
    by (simp add: messageHandler_def console_out_def serial_write_def)
qed

text \<open>
  Witness for C7: a client connects, the port closes, the client sends \<^verbatim>\<open>A\<close>; the
  retry and the reopening follow.
\<close>

theorem message_dropped_while_disconnected_witness:
  "(\<exists>c \<in> set (wssClients (run exampleConstants
       [OpenResult None, WsConnection None (URL (Some (lit ''secret''))) False, SerialClose 0]
       (main exampleConstants))). cid c = 0 \<and> messageListener c)
   \<and> \<not> serialConnected (run exampleConstants
       [OpenResult None, WsConnection None (URL (Some (lit ''secret''))) False, SerialClose 0]
       (main exampleConstants))
   \<and> written (step exampleConstants (WsMessage 0 [0x41]) (run exampleConstants
       [OpenResult None, WsConnection None (URL (Some (lit ''secret''))) False, SerialClose 0]
       (main exampleConstants))) = [(Some 0, lit ''=R'' @ [CR, LF])]
   \<and> sameButConsole
        (run exampleConstants [TimeoutFires 0, OpenResult None]
          (step exampleConstants (WsMessage 0 [0x41]) (run exampleConstants
            [OpenResult None, WsConnection None (URL (Some (lit ''secret''))) False, SerialClose 0]
            (main exampleConstants))))
        (run exampleConstants [TimeoutFires 0, OpenResult None] (run exampleConstants
            [OpenResult None, WsConnection None (URL (Some (lit ''secret''))) False, SerialClose 0]
            (main exampleConstants)))"
proof -
  let ?s = "run exampleConstants
       [OpenResult None, WsConnection None (URL (Some (lit ''secret''))) False, SerialClose 0]
       (main exampleConstants)"
  have h: "\<exists>c \<in> set (wssClients ?s). cid c = 0 \<and> messageListener c"
    unfolding example_closed by simp
  have s: "\<not> serialConnected ?s"
    unfolding example_closed by simp
  note r = message_dropped_while_disconnected [OF h, of exampleConstants "[0x41]"
      "[TimeoutFires 0, OpenResult None]", THEN conjunct1, THEN mp, OF s]
  from r [THEN conjunct1] have "written (step exampleConstants (WsMessage 0 [0x41]) ?s)
      = [(Some 0, lit ''=R'' @ [CR, LF])]"
    by (simp only: example_closed)
  then show ?thesis
    using h s r [THEN conjunct2, THEN conjunct2, THEN conjunct2] by (intro conjI)
qed

subsection \<open>C8: the close event\<close>

text \<open>
  Claim C8, as amended. In every state the process reaches, take the close event of a port
  on which the listeners are registered once. The link is disconnected, the poll timer is
  cleared and no interval timer runs, \<^verbatim>\<open>[STATUS] Serial disconnected\<close> is sent to
  every socket that is open and has presented the configured token, and one retry is
  scheduled 5000 ms later; and until an open succeeds again, whatever events follow,
  nothing is written to the serial port. The listeners are registered once on a port when
  an open succeeds while \<open>serial\<close> names this port and it has no listeners yet. The
  close event of a port on which they are not registered changes nothing, and in general
  a close event schedules one retry for each registration.
\<close>

theorem close_event_effects:
  fixes C evs p
  defines "st \<equiv> run C evs (main C)"
  defines "st1 \<equiv> step C (SerialClose p) st"
  shows "(listeners p st = 1 \<longrightarrow>
            serialConnected st1 = False
          \<and> pollTimer st1 = None \<and> intervals st1 = []
          \<and> sent st1 = sent st @ map (\<lambda>c. (cid c, lit ''[STATUS] Serial disconnected''))
              (filter (\<lambda>c. readyState c = OPEN \<and> authenticated C c) (wssClients st))
          \<and> timeouts st1 = timeouts st @ [5000]
          \<and> (OpenResult None \<notin> set later \<longrightarrow> written (run C later st1) = written st))
       \<and> (0 < pendingOpens st \<and> serial st = Some p \<and> listeners p st = 0 \<longrightarrow>
            listeners p (step C (OpenResult None) st) = 1)
       \<and> (listeners p st = 0 \<longrightarrow> st1 = st)
       \<and> timeouts st1 = timeouts st @ replicate (listeners p st) 5000"
proof -
  have "timerInv st" "authInv C st"
    unfolding st_def by (rule reachable_invariants)+
  then have "intervals (closeHandler st) = []"
    and "recipients None st =
      filter (\<lambda>c. readyState c = OPEN \<and> authenticated C c) (wssClients st)"
    using open_clients_authenticated [of C st None]
    by (auto simp: closeHandler_eq timerInv_def sole_interval_cleared recipients_def
          split: option.splits)
  moreover have "OpenResult None \<notin> set later \<Longrightarrow>
      written (run C later (closeHandler st)) = written st"
    using disconnected_run [of "closeHandler st" later C] by (simp add: closeHandler_eq)
  moreover have "st1 = closeHandler st" if "listeners p st = 1"
    unfolding st1_def using that by (rule step_SerialClose_once)
  moreover have "st1 = st" if "listeners p st = 0"
    unfolding st1_def using that by (rule step_SerialClose_none)
  moreover have "timeouts st1 = timeouts st @ replicate (listeners p st) 5000"
    unfolding st1_def by (rule link_SerialClose)
  moreover have "listeners p (step C (OpenResult None) st) = 1"
    if "0 < pendingOpens st" and "serial st = Some p" and "listeners p st = 0"
  proof -
    from that(2) have "p < length (ports st)"
      unfolding st_def by (rule serial_in_ports)
    with that show ?thesis
      by (simp add: listeners_def link_OpenResult_None)
  qed
  ultimately show ?thesis
    by (simp add: closeHandler_eq)
qed

text \<open>
  Witness for C8: the port opens, which registers the listeners once on port 0; two
  sockets are accepted and one is rejected. The close event of port 0 sends the status
  message to both accepted sockets and schedules one retry; a tick of the old timer and a
  client message write nothing.
\<close>

theorem close_event_effects_witness:
  "listeners 0 (run exampleConstants
     [OpenResult None, WsConnection None (URL (Some (lit ''secret''))) False,
      WsConnection None (URL (Some (lit ''bad''))) False,
      WsConnection None (URL (Some (lit ''secret''))) True]
     (main exampleConstants)) = 1
   \<and> serialConnected (step exampleConstants (SerialClose 0) (run exampleConstants
     [OpenResult None, WsConnection None (URL (Some (lit ''secret''))) False,
      WsConnection None (URL (Some (lit ''bad''))) False,
      WsConnection None (URL (Some (lit ''secret''))) True]
     (main exampleConstants))) = False
   \<and> intervals (step exampleConstants (SerialClose 0) (run exampleConstants
     [OpenResult None, WsConnection None (URL (Some (lit ''secret''))) False,
      WsConnection None (URL (Some (lit ''bad''))) False,
      WsConnection None (URL (Some (lit ''secret''))) True]
     (main exampleConstants))) = []
   \<and> sent (step exampleConstants (SerialClose 0) (run exampleConstants
     [OpenResult None, WsConnection None (URL (Some (lit ''secret''))) False,
      WsConnection None (URL (Some (lit ''bad''))) False,
      WsConnection None (URL (Some (lit ''secret''))) True]
     (main exampleConstants)))
       = [(0, lit ''[STATUS] Serial disconnected''), (2, lit ''[STATUS] Serial disconnected'')]
   \<and> timeouts (step exampleConstants (SerialClose 0) (run exampleConstants
     [OpenResult None, WsConnection None (URL (Some (lit ''secret''))) False,
      WsConnection None (URL (Some (lit ''bad''))) False,
      WsConnection None (URL (Some (lit ''secret''))) True]
     (main exampleConstants))) = [5000]
   \<and> OpenResult None \<notin> set [IntervalTick 0, WsMessage 0 [0x41]]
   \<and> written (run exampleConstants [IntervalTick 0, WsMessage 0 [0x41]]
        (step exampleConstants (SerialClose 0) (run exampleConstants
     [OpenResult None, WsConnection None (URL (Some (lit ''secret''))) False,
      WsConnection None (URL (Some (lit ''bad''))) False,
      WsConnection None (URL (Some (lit ''secret''))) True]
     (main exampleConstants))))
       = [(Some 0, lit ''=R'' @ [CR, LF]), (Some 0, lit ''=R'' @ [CR, LF])]
   \<and> 0 < pendingOpens (main exampleConstants) \<and> serial (main exampleConstants) = Some 0
   \<and> listeners 0 (main exampleConstants) = 0
   \<and> listeners 0 (step exampleConstants (OpenResult None) (main exampleConstants)) = 1"
proof -
  let ?evs = "[OpenResult None, WsConnection None (URL (Some (lit ''secret''))) False,
      WsConnection None (URL (Some (lit ''bad''))) False,
      WsConnection None (URL (Some (lit ''secret''))) True]"
  let ?s = "run exampleConstants ?evs (main exampleConstants)"
  let ?later = "[IntervalTick 0, WsMessage 0 [0x41]]"
  have s: "sent ?s = []" "timeouts ?s = []"
    "written ?s = [(Some 0, lit ''=R'' @ [CR, LF]), (Some 0, lit ''=R'' @ [CR, LF])]"
    "filter (\<lambda>c. readyState c = OPEN \<and> authenticated exampleConstants c) (wssClients ?s)
      = [\<lparr>cid = 0, token = URL (Some (lit ''secret'')), ip = None, readyState = OPEN,
          messageListener = True, closeListener = True, sendFails = False\<rparr>,
         \<lparr>cid = 2, token = URL (Some (lit ''secret'')), ip = None, readyState = OPEN,
          messageListener = True, closeListener = True, sendFails = True\<rparr>]"
    unfolding example_clients
    by (simp_all add: wssClients_def authenticated_def tokenValue_def exampleConstants_def)
  have once: "listeners 0 ?s = 1"
    unfolding example_clients by (simp add: listeners_def)
  have h: "OpenResult None \<notin> set ?later"
    by simp
  have m: "0 < pendingOpens (main exampleConstants)" "serial (main exampleConstants) = Some 0"
    "listeners 0 (main exampleConstants) = 0"
    by (simp_all add: main_def init_def initSerialPort_def console_out_def Let_def listeners_def)
  note r = close_event_effects [where C = exampleConstants and evs = ?evs and p = 0
      and later = ?later, THEN conjunct1, THEN mp, OF once]
  note q = close_event_effects [where C = exampleConstants and evs = "[]" and p = 0
      and later = "[]", THEN conjunct2, THEN conjunct1]
  note r1 = r [THEN conjunct1]
  note r3 = r [THEN conjunct2, THEN conjunct2, THEN conjunct1]
  from r [THEN conjunct2, THEN conjunct2, THEN conjunct2, THEN conjunct1]
  have r4: "sent (step exampleConstants (SerialClose 0) ?s)
      = [(0, lit ''[STATUS] Serial disconnected''), (2, lit ''[STATUS] Serial disconnected'')]"
    by (simp only: s) simp
  from r [THEN conjunct2, THEN conjunct2, THEN conjunct2, THEN conjunct2, THEN conjunct1]
  have r5: "timeouts (step exampleConstants (SerialClose 0) ?s) = [5000]"
    by (simp only: s) simp
  from r [THEN conjunct2, THEN conjunct2, THEN conjunct2, THEN conjunct2, THEN conjunct2,
      THEN mp, OF h]
  have r6: "written (run exampleConstants ?later (step exampleConstants (SerialClose 0) ?s))
      = [(Some 0, lit ''=R'' @ [CR, LF]), (Some 0, lit ''=R'' @ [CR, LF])]"
    by (simp only: s)
  from q m have q1: "listeners 0 (step exampleConstants (OpenResult None) (main exampleConstants)) = 1"
    by (simp only: run.simps)
  show ?thesis
    using once r1 r3 r4 r5 h r6 m q1 by (intro conjI)
qed

text \<open>
  Counterexample to C8 as stated (every close event): the port opens, emits an error event
  and a close event, so that two retries are pending (C2); both expire before either open
  is answered, so that \<open>serial\<close> names the second new port when the two opens succeed, and
  both open callbacks register the listeners on it. The link is connected. The close event
  of the first new port, port 1, has no listener: nothing changes, the link stays
  connected and no retry is scheduled. The close event of the second new port, port 2,
  runs the close listener twice: two retries are scheduled.
\<close>

theorem close_event_unnoticed_or_doubled_counterexample:
  "serialConnected (run exampleConstants
      [OpenResult None, SerialError 0 (lit ''EIO''), SerialClose 0, TimeoutFires 0,
       TimeoutFires 0, OpenResult None, OpenResult None] (main exampleConstants))
   \<and> timeouts (run exampleConstants
      [OpenResult None, SerialError 0 (lit ''EIO''), SerialClose 0, TimeoutFires 0,
       TimeoutFires 0, OpenResult None, OpenResult None] (main exampleConstants)) = []
   \<and> step exampleConstants (SerialClose 1) (run exampleConstants
      [OpenResult None, SerialError 0 (lit ''EIO''), SerialClose 0, TimeoutFires 0,
       TimeoutFires 0, OpenResult None, OpenResult None] (main exampleConstants))
     = run exampleConstants
      [OpenResult None, SerialError 0 (lit ''EIO''), SerialClose 0, TimeoutFires 0,
       TimeoutFires 0, OpenResult None, OpenResult None] (main exampleConstants)
   \<and> timeouts (step exampleConstants (SerialClose 2) (run exampleConstants
      [OpenResult None, SerialError 0 (lit ''EIO''), SerialClose 0, TimeoutFires 0,
       TimeoutFires 0, OpenResult None, OpenResult None] (main exampleConstants)))
     = [5000, 5000]"
proof -
  let ?C = exampleConstants
  let ?s1 = "step ?C (OpenResult None) (main ?C)"
  let ?s2 = "step ?C (SerialError 0 (lit ''EIO'')) ?s1"
  let ?s3 = "step ?C (SerialClose 0) ?s2"
  let ?s4 = "step ?C (TimeoutFires 0) ?s3"
  let ?s5 = "step ?C (TimeoutFires 0) ?s4"
  let ?s6 = "step ?C (OpenResult None) ?s5"
  let ?s7 = "step ?C (OpenResult None) ?s6"
  have f1: "serial ?s1 = Some 0" "ports ?s1 = [1]" "pendingOpens ?s1 = 0" "timeouts ?s1 = []"
    "\<not> exited ?s1"
    unfolding run_one [symmetric] example_opened by simp_all
  have alive: "\<not> exited ?s2"
    by (simp add: link_SerialError f1 listeners_def)
  from f1(5) have "run ?C ([OpenResult None] @ [SerialError 0 (lit ''EIO'')]) (main ?C) = ?s2"
    unfolding run_one [symmetric] by (rule run_alive)
  then have two: "run ?C [OpenResult None, SerialError 0 (lit ''EIO'')] (main ?C) = ?s2"
    by (simp only: append.simps)
  have "run ?C ([OpenResult None, SerialError 0 (lit ''EIO'')] @
        [SerialClose 0, TimeoutFires 0, TimeoutFires 0, OpenResult None, OpenResult None]) (main ?C)
      = run ?C [SerialClose 0, TimeoutFires 0, TimeoutFires 0, OpenResult None, OpenResult None]
          (run ?C [OpenResult None, SerialError 0 (lit ''EIO'')] (main ?C))"
    by (rule run_append)
  also have "\<dots> = ?s7"
    unfolding two by (simp add: run_fold alive del: run.simps)
  finally have run: "run ?C [OpenResult None, SerialError 0 (lit ''EIO''), SerialClose 0,
       TimeoutFires 0, TimeoutFires 0, OpenResult None, OpenResult None] (main ?C) = ?s7"
    by (simp only: append.simps)
  have f2: "serial ?s2 = Some 0" "ports ?s2 = [1]" "pendingOpens ?s2 = 0" "timeouts ?s2 = [5000]"
    by (simp_all add: link_SerialError f1 listeners_def)
  have f3: "serial ?s3 = Some 0" "ports ?s3 = [1]" "pendingOpens ?s3 = 0"
    "timeouts ?s3 = [5000, 5000]"
    by (simp_all add: link_SerialClose f2 listeners_def)
  have f4: "serial ?s4 = Some 1" "ports ?s4 = [1, 0]" "pendingOpens ?s4 = 1"
    "timeouts ?s4 = [5000]"
    by (simp_all add: link_TimeoutFires f3)
  have f5: "serial ?s5 = Some 2" "ports ?s5 = [1, 0, 0]" "pendingOpens ?s5 = 2"
    "timeouts ?s5 = []"
    by (simp_all add: link_TimeoutFires f4)
  have f6: "serial ?s6 = Some 2" "ports ?s6 = [1, 0, 1]" "pendingOpens ?s6 = 1"
    "timeouts ?s6 = []"
    by (simp_all add: link_OpenResult_None f5)
  have f7: "ports ?s7 = [1, 0, 2]" "timeouts ?s7 = []" "serialConnected ?s7"
    by (simp_all add: link_OpenResult_None f6)
  have "listeners 1 ?s7 = 0" and "listeners 2 ?s7 = 2"
    by (simp_all add: listeners_def f7)
  then have "step ?C (SerialClose 1) ?s7 = ?s7"
    and "timeouts (step ?C (SerialClose 2) ?s7) = [5000, 5000]"
    by (simp_all add: step_SerialClose_none link_SerialClose f7 numeral_2_eq_2)
  with f7 show ?thesis
    unfolding run by (intro conjI)
qed

subsection \<open>C10: the server is started once\<close>

text \<open>
  Claim C10. \<open>startWebSocketServer\<close> returns at once when the server exists, so it is
  idempotent; the open callback creates the server when there is none and leaves the
  server and the sockets of its clients as they are when there is one; and whatever the
  events, at most one server is ever created.
\<close>

theorem server_started_once:
  "servers (run C evs (main C)) \<le> 1
   \<and> (wss st \<noteq> None \<longrightarrow>
        startWebSocketServer C st = st
        \<and> wss (openCallback C None st) = wss st
        \<and> servers (openCallback C None st) = servers st)
   \<and> (wss st = None \<longrightarrow>
        wss (openCallback C None st) = Some \<lparr>clients = []\<rparr>
        \<and> servers (openCallback C None st) = Suc (servers st))
   \<and> startWebSocketServer C (startWebSocketServer C st) = startWebSocketServer C st"
proof -
  have "serverInv (run C evs (main C))"
    by (rule reachable_invariants)
  then have "servers (run C evs (main C)) \<le> 1"
    by (simp add: serverInv_def)
  moreover have "startWebSocketServer C st = st" if "wss st \<noteq> None"
    using that by (simp add: startWebSocketServer_def)
  moreover have "wss (openCallback C None st) = wss st \<and> servers (openCallback C None st) = servers st"
    if "wss st \<noteq> None"
    using that
    by (simp add: openCallback_ok_parts startPolling_eq setupSerialHandlers_def
          broadcastToClients_eq console_out_def startWebSocketServer_def split: option.splits)
  moreover have "wss (openCallback C None st) = Some \<lparr>clients = []\<rparr>
      \<and> servers (openCallback C None st) = Suc (servers st)"
    if "wss st = None"
    using that
    by (simp add: openCallback_ok_parts startPolling_eq setupSerialHandlers_def
          broadcastToClients_eq console_out_def startWebSocketServer_def split: option.splits)
  moreover have "startWebSocketServer C (startWebSocketServer C st) = startWebSocketServer C st"
    by (simp add: startWebSocketServer_def console_out_def)
  ultimately show ?thesis
    by blast
qed

text \<open>
  Witness for C10: the port opens, closes, and opens again after the retry; one server
  was created, and the reopening leaves it as it is.
\<close>

theorem server_started_once_witness:
  "servers (run exampleConstants [OpenResult None, SerialClose 0, TimeoutFires 0, OpenResult None]
      (main exampleConstants)) \<le> 1
   \<and> wss (run exampleConstants [OpenResult None] (main exampleConstants)) \<noteq> None
   \<and> startWebSocketServer exampleConstants
        (run exampleConstants [OpenResult None] (main exampleConstants))
       = run exampleConstants [OpenResult None] (main exampleConstants)
   \<and> wss (openCallback exampleConstants None
        (run exampleConstants [OpenResult None] (main exampleConstants)))
       = wss (run exampleConstants [OpenResult None] (main exampleConstants))"
proof -
  let ?s = "run exampleConstants [OpenResult None] (main exampleConstants)"
  have h: "wss ?s \<noteq> None"
    unfolding example_opened by simp
  note r = server_started_once [of exampleConstants
      "[OpenResult None, SerialClose 0, TimeoutFires 0, OpenResult None]" ?s]
  note r2 = r [THEN conjunct2, THEN conjunct1, THEN mp, OF h]
  show ?thesis
    using r [THEN conjunct1] h r2 [THEN conjunct1] r2 [THEN conjunct2, THEN conjunct1]
    by (intro conjI)
qed

end
